theory Spec2Isabelle
  imports Complex_Main "HOL-Library.Sublist"
begin

section \<open>JavaScript values\<close>

text \<open>
  A JavaScript number is NaN, one of the two infinities or a finite value, an IEEE double.
  A finite value is given by the real number it stands for; comparisons are those of the
  reals, and an arithmetic operation rounds its exact result to the nearest double
  (\<open>to_double\<close> below). The sign of zero is left out. Comparisons with NaN are false and
  arithmetic on NaN gives NaN, as in the language.
\<close>

datatype jsnum = NaN | NegInf | Fin real | PosInf

text \<open>The relational operators \<open><=\<close> and \<open><\<close> on numbers.\<close>

fun js_le :: "jsnum \<Rightarrow> jsnum \<Rightarrow> bool" where
  "js_le NaN _ = False"
| "js_le _ NaN = False"
| "js_le NegInf _ = True"
| "js_le _ PosInf = True"
| "js_le (Fin a) (Fin b) = (a \<le> b)"
| "js_le (Fin a) NegInf = False"
| "js_le PosInf (Fin b) = False"
| "js_le PosInf NegInf = False"

fun js_lt :: "jsnum \<Rightarrow> jsnum \<Rightarrow> bool" where
  "js_lt NaN _ = False"
| "js_lt _ NaN = False"
| "js_lt a b = (js_le a b \<and> a \<noteq> b)"

definition js_ge :: "jsnum \<Rightarrow> jsnum \<Rightarrow> bool" where
  "js_ge a b = js_le b a"

definition js_gt :: "jsnum \<Rightarrow> jsnum \<Rightarrow> bool" where
  "js_gt a b = js_lt b a"

text \<open>Strict equality \<open>===\<close> on numbers: NaN is not equal to itself.\<close>

definition js_eq :: "jsnum \<Rightarrow> jsnum \<Rightarrow> bool" where
  "js_eq a b = (a \<noteq> NaN \<and> b \<noteq> NaN \<and> a = b)"

text \<open>\<open>Math.min\<close> and \<open>Math.max\<close> of two arguments: NaN if either argument is NaN.\<close>

definition math_min :: "jsnum \<Rightarrow> jsnum \<Rightarrow> jsnum" where
  "math_min a b = (if a = NaN \<or> b = NaN then NaN else if js_le a b then a else b)"

definition math_max :: "jsnum \<Rightarrow> jsnum \<Rightarrow> jsnum" where
  "math_max a b = (if a = NaN \<or> b = NaN then NaN else if js_le a b then b else a)"

text \<open>
  Rounding a real to the nearest double, a tie going to the even significand. A double
  has 53 significant bits: the doubles around \<open>x\<close> are the multiples of
  \<open>2 powi (e - 52)\<close>, where \<open>e\<close> is the binary exponent of \<open>x\<close>, and not less than -1022
  (below that the doubles are the multiples of \<open>2 powi (-1074)\<close>). A result of magnitude
  \<open>2 powi 1024\<close> or more is an infinity.
\<close>

definition expo :: "real \<Rightarrow> int" where
  "expo x = max \<lfloor>log 2 \<bar>x\<bar>\<rfloor> (- 1022)"

definition round_even :: "real \<Rightarrow> int" where
  "round_even m =
     (let f = \<lfloor>m\<rfloor>
      in if m - of_int f < 1 / 2 then f
         else if m - of_int f > 1 / 2 then f + 1
         else if even f then f else f + 1)"

definition to_double :: "real \<Rightarrow> jsnum" where
  "to_double x =
     (if x = 0 then Fin 0
      else
        let q = 2 powi (expo x - 52);
            r = q * of_int (round_even (x / q))
        in if \<bar>r\<bar> \<ge> 2 powi 1024 then (if 0 < x then PosInf else NegInf) else Fin r)"

text \<open>Addition, with \<open>Infinity + -Infinity = NaN\<close>.\<close>

fun js_add :: "jsnum \<Rightarrow> jsnum \<Rightarrow> jsnum" where
  "js_add NaN _ = NaN"
| "js_add _ NaN = NaN"
| "js_add (Fin a) (Fin b) = to_double (a + b)"
| "js_add PosInf NegInf = NaN"
| "js_add NegInf PosInf = NaN"
| "js_add PosInf _ = PosInf"
| "js_add _ PosInf = PosInf"
| "js_add NegInf _ = NegInf"
| "js_add _ NegInf = NegInf"

text \<open>
  Division of a number by the length of a non-empty array, a positive integer below
  \<open>2 ^ 32\<close> and so a double itself.
\<close>

fun js_div_len :: "jsnum \<Rightarrow> nat \<Rightarrow> jsnum" where
  "js_div_len (Fin a) n = to_double (a / real n)"
| "js_div_len x n = x"

text \<open>
  \<open>Math.round\<close>: the nearest integer, a tie going to the larger one
  (\<open>Math.round(2.5) = 3\<close>, \<open>Math.round(-2.5) = -2\<close>); the result is exact.
\<close>

fun math_round :: "jsnum \<Rightarrow> jsnum" where
  "math_round (Fin a) = Fin (of_int \<lfloor>a + 1 / 2\<rfloor>)"
| "math_round x = x"

text \<open>A JSON-like value, for request and response bodies and free-form document fields.\<close>

datatype jsval =
    JUndefined
  | JNull
  | JBool bool
  | JNum jsnum
  | JStr string
  | JDate int
  | JArr "jsval list"
  | JObj "(string \<times> jsval) list"

text \<open>Property lookup on an object literal; \<open>undefined\<close> for a missing key or a non-object.\<close>

fun js_get :: "jsval \<Rightarrow> string \<Rightarrow> jsval" where
  "js_get (JObj kvs) k = (case map_of kvs k of None \<Rightarrow> JUndefined | Some v \<Rightarrow> v)"
| "js_get _ k = JUndefined"

text \<open>A non-negative integer in a template literal: its decimal digits.\<close>

fun show_nat :: "nat \<Rightarrow> string" where
  "show_nat n =
     (if n < 10 then [char_of (48 + n)]
      else show_nat (n div 10) @ [char_of (48 + n mod 10)])"

declare show_nat.simps [simp del]

text \<open>An optional string in a template literal: \<open>undefined\<close> prints as that word.\<close>

definition show_opt :: "string option \<Rightarrow> string" where
  "show_opt x = (case x of None \<Rightarrow> ''undefined'' | Some v \<Rightarrow> v)"

text \<open>\<open>Array.prototype.join\<close> on strings.\<close>

fun join :: "string \<Rightarrow> string list \<Rightarrow> string" where
  "join sep [] = []"
| "join sep [x] = x"
| "join sep (x # y # ys) = x @ sep @ join sep (y # ys)"

section \<open>The Goal document (models/Goal.js)\<close>

text \<open>Times are milliseconds since the epoch, as \<open>Date.now()\<close> and \<open>new Date()\<close> give them.\<close>

type_synonym time = int

datatype goal_status = Active | Paused | Completed | Archived

datatype goal_priority = Low | Medium | High

record milestone =
  m_text :: string
  completed :: bool
  completedAt :: "time option"
  dueDate :: "time option"

record history_entry =
  h_date :: time
  h_progress :: jsnum
  h_note :: "string option"

record check_in =
  c_date :: time
  mood :: jsval
  confidence :: jsval
  obstacles :: "string list"
  wins :: "string list"
  c_note :: "string option"

record goal =
  userId :: string
  title :: string
  description :: "string option"
  category :: string
  gtype :: string
  status :: goal_status
  progress :: jsnum
  targetDate :: "time option"
  startDate :: time
  completedDate :: "time option"
  milestones :: "milestone list"
  tags :: "string list"
  priority :: goal_priority
  progressHistory :: "history_entry list"
  checkIns :: "check_in list"

text \<open>
  \<open>goalSchema.methods.updateProgress\<close>. The method reads the clock twice (\<open>new Date()\<close>
  for the history entry and for \<open>completedDate\<close>); the two readings are the arguments
  \<open>t_entry\<close> and \<open>t_done\<close>.
\<close>

definition updateProgress :: "goal \<Rightarrow> jsnum \<Rightarrow> string option \<Rightarrow> time \<Rightarrow> time \<Rightarrow> goal" where
  "updateProgress this newProgress note t_entry t_done =
     (let p = math_max (Fin 0) (math_min (Fin 100) newProgress);
          this1 = this\<lparr>progress := p\<rparr>;
          this2 = this1\<lparr>progressHistory := progressHistory this1 @
                    [\<lparr>h_date = t_entry, h_progress = progress this1, h_note = note\<rparr>]\<rparr>
      in if js_eq (progress this2) (Fin 100) \<and> status this2 \<noteq> Completed
         then this2\<lparr>status := Completed, completedDate := Some t_done\<rparr>
         else this2)"

text \<open>The stored progress lies in the closed interval from 0 to 100.\<close>

definition in_range_0_100 :: "jsnum \<Rightarrow> bool" where
  "in_range_0_100 p = (js_le (Fin 0) p \<and> js_le p (Fin 100))"

section \<open>The goal routes (routes/goals.js)\<close>

text \<open>
  \<open>new Goal({...})\<close> in \<open>POST /api/goals\<close>: the fields the handler passes, and the schema
  defaults for the rest (status \<open>active\<close>, progress 0, priority \<open>medium\<close>, empty logs).
  A milestone of the request is its text and its optional due date.
\<close>

definition new_milestone :: "string \<times> time option \<Rightarrow> milestone" where
  "new_milestone m = \<lparr>m_text = fst m, completed = False, completedAt = None, dueDate = snd m\<rparr>"

definition new_goal ::
  "string \<Rightarrow> string \<Rightarrow> string option \<Rightarrow> string \<Rightarrow> string \<Rightarrow> time option
     \<Rightarrow> (string \<times> time option) list \<Rightarrow> time \<Rightarrow> goal" where
  "new_goal uid ti de ca ty td ms now =
     \<lparr>userId = uid, title = ti, description = de, category = ca, gtype = ty,
      status = Active, progress = Fin 0, targetDate = td, startDate = now,
      completedDate = None, milestones = map new_milestone ms, tags = [],
      priority = Medium, progressHistory = [], checkIns = []\<rparr>"

text \<open>
  The check-in of \<open>POST /api/goals/:id/checkin\<close>: \<open>goal.checkIns.push({date: new Date(),
  mood, confidence, obstacles, wins, note})\<close>.
\<close>

definition checkin ::
  "goal \<Rightarrow> jsval \<Rightarrow> jsval \<Rightarrow> string list \<Rightarrow> string list \<Rightarrow> string option \<Rightarrow> time \<Rightarrow> goal" where
  "checkin g mo co ob wi note now =
     g\<lparr>checkIns := checkIns g @
         [\<lparr>c_date = now, mood = mo, confidence = co, obstacles = ob, wins = wi, c_note = note\<rparr>]\<rparr>"

text \<open>
  The goals collection maps a document id to the document.
  \<open>Goal.findOne({_id: goalId, userId})\<close> finds the document with that id if the
  requesting user owns it.
\<close>

type_synonym goal_store = "string \<rightharpoonup> goal"

definition findOne :: "goal_store \<Rightarrow> string \<Rightarrow> string \<Rightarrow> goal option" where
  "findOne store goalId uid =
     (case store goalId of
        None \<Rightarrow> None
      | Some g \<Rightarrow> if userId g = uid then Some g else None)"

text \<open>
  The two handlers, as the status code of the response and the collection afterwards.
  \<open>progress\<close> is the number \<open>Math.min\<close> makes of \<open>req.body.progress\<close>. \<open>saved\<close> tells
  whether \<open>goal.save()\<close> succeeded: a rejected save is caught by the
  handler, which answers 500, and the collection keeps the old document. After the save
  of a completed goal the handler updates the user's metrics; \<open>metrics_updated\<close> tells
  whether that succeeded, and a failure is answered 500 as well.
\<close>

definition put_progress ::
  "goal_store \<Rightarrow> string \<Rightarrow> string \<Rightarrow> jsnum \<Rightarrow> string option \<Rightarrow> time \<Rightarrow> time \<Rightarrow> bool
     \<Rightarrow> bool \<Rightarrow> nat \<times> goal_store" where
  "put_progress store goalId uid prog note t_entry t_done saved metrics_updated =
     (case findOne store goalId uid of
        None \<Rightarrow> (404, store)
      | Some g \<Rightarrow>
          let g' = updateProgress g prog note t_entry t_done
          in if \<not> saved then (500, store)
             else if status g' = Completed \<and> \<not> metrics_updated
               then (500, store(goalId \<mapsto> g'))
             else (200, store(goalId \<mapsto> g')))"

definition post_checkin ::
  "goal_store \<Rightarrow> string \<Rightarrow> string \<Rightarrow> jsval \<Rightarrow> jsval \<Rightarrow> string list \<Rightarrow> string list
     \<Rightarrow> string option \<Rightarrow> time \<Rightarrow> bool \<Rightarrow> nat \<times> goal_store" where
  "post_checkin store goalId uid mo co ob wi note now saved =
     (case findOne store goalId uid of
        None \<Rightarrow> (404, store)
      | Some g \<Rightarrow>
          if saved then (200, store(goalId \<mapsto> checkin g mo co ob wi note now))
          else (500, store))"

text \<open>The operations on one goal document, and the goals a fresh document can become.\<close>

datatype goal_op =
    UpdateProgress jsnum "string option" time time
  | CheckIn jsval jsval "string list" "string list" "string option" time

fun apply_op :: "goal \<Rightarrow> goal_op \<Rightarrow> goal" where
  "apply_op g (UpdateProgress p note t_entry t_done) = updateProgress g p note t_entry t_done"
| "apply_op g (CheckIn mo co ob wi note now) = checkin g mo co ob wi note now"

definition apply_ops :: "goal \<Rightarrow> goal_op list \<Rightarrow> goal" where
  "apply_ops g ops = foldl apply_op g ops"

inductive reachable :: "goal \<Rightarrow> bool" where
  created: "reachable (new_goal uid ti de ca ty td ms now)"
| stepped: "reachable g \<Longrightarrow> reachable (apply_op g op)"

text \<open>A goal used for the concrete instances below.\<close>

definition goal0 :: goal where
  "goal0 = new_goal ''u1'' ''Run a marathon'' None ''fitness'' ''long-term'' None [] 1000"

text \<open>
  What every reachable goal satisfies: it is completed exactly when some recorded update
  reached 100, and a goal whose progress is 100 is completed.
\<close>

definition completed_inv :: "goal \<Rightarrow> bool" where
  "completed_inv g \<longleftrightarrow>
     (progress g = Fin 100 \<longrightarrow> status g = Completed) \<and>
     (status g = Completed \<longleftrightarrow> (\<exists>e \<in> set (progressHistory g). h_progress e = Fin 100))"

section \<open>Goal analysis (services/goalAnalysis.js)\<close>

record overall =
  averageProgress :: jsnum
  activeCount :: nat
  completedCount :: nat
  o_status :: string

text \<open>\<open>this.progressThresholds\<close>, set in the constructor.\<close>

definition excellent :: jsnum where "excellent = Fin 80"
definition good :: jsnum where "good = Fin 60"
definition fair :: jsnum where "fair = Fin 40"
definition needsAttention :: jsnum where "needsAttention = Fin 20"

definition getProgressStatus :: "jsnum \<Rightarrow> string" where
  "getProgressStatus avgProgress =
     (if js_ge avgProgress excellent then ''excellent''
      else if js_ge avgProgress good then ''good''
      else if js_ge avgProgress fair then ''fair''
      else ''needs_attention'')"

definition calculateOverallProgress :: "goal list \<Rightarrow> overall" where
  "calculateOverallProgress goals =
     (let activeGoals = filter (\<lambda>goal. status goal = Active) goals;
          completedGoals = filter (\<lambda>goal. status goal = Completed) goals
      in if length activeGoals = 0
         then \<lparr>averageProgress = (if length completedGoals > 0 then Fin 100 else Fin 0),
               activeCount = 0,
               completedCount = length completedGoals,
               o_status = (if length completedGoals > 0 then ''all_completed'' else ''no_goals'')\<rparr>
         else
           let avgProgress =
                 js_div_len (foldl (\<lambda>sum goal. js_add sum (progress goal)) (Fin 0) activeGoals)
                   (length activeGoals)
           in \<lparr>averageProgress = math_round avgProgress,
               activeCount = length activeGoals,
               completedCount = length completedGoals,
               o_status = getProgressStatus avgProgress\<rparr>)"

text \<open>
  The words of the specification: the arithmetic mean of a list of reals, the nearest
  integer (a tie going up), and the status by thresholds of the mean.
\<close>

definition arithmetic_mean :: "real list \<Rightarrow> real" where
  "arithmetic_mean xs = sum_list xs / real (length xs)"

definition nearest_integer :: "real \<Rightarrow> int" where
  "nearest_integer x = \<lfloor>x + 1 / 2\<rfloor>"

definition status_of_mean :: "real \<Rightarrow> string" where
  "status_of_mean m =
     (if m \<ge> 80 then ''excellent'' else if m \<ge> 60 then ''good''
      else if m \<ge> 40 then ''fair'' else ''needs_attention'')"

text \<open>
  A progress that is a whole number from 0 to 100, and the double just below 80.
\<close>

fun whole_percent :: "jsnum \<Rightarrow> bool" where
  "whole_percent (Fin r) = (r \<in> \<int> \<and> 0 \<le> r \<and> r \<le> 100)"
| "whole_percent x = False"

definition just_below_80 :: real where
  "just_below_80 = 80 - 1 / 2 ^ 46"

text \<open>The value of a finite number, and the finite progress values of the active goals.\<close>

fun is_finite :: "jsnum \<Rightarrow> bool" where
  "is_finite (Fin r) = True"
| "is_finite x = False"

fun fin_val :: "jsnum \<Rightarrow> real" where
  "fin_val (Fin r) = r"
| "fin_val x = 0"

definition active_progress :: "goal list \<Rightarrow> real list" where
  "active_progress goals = map (\<lambda>g. fin_val (progress g)) (filter (\<lambda>g. status g = Active) goals)"

subsection \<open>Recommendations\<close>

record recommendation =
  r_priority :: goal_priority
  r_type :: string
  r_message :: string
  action :: string

text \<open>
  \<open>Array.prototype.sort\<close> with a comparison function. The language requires the sort to
  be stable; for a consistent comparison function the result is then the one stable
  arrangement in which no element is followed by one that compares smaller, which
  insertion from the right computes.
\<close>

fun insert_by :: "('a \<Rightarrow> 'a \<Rightarrow> int) \<Rightarrow> 'a \<Rightarrow> 'a list \<Rightarrow> 'a list" where
  "insert_by cmp x [] = [x]"
| "insert_by cmp x (y # ys) = (if cmp x y \<le> 0 then x # y # ys else y # insert_by cmp x ys)"

definition array_sort :: "('a \<Rightarrow> 'a \<Rightarrow> int) \<Rightarrow> 'a list \<Rightarrow> 'a list" where
  "array_sort cmp xs = foldr (insert_by cmp) xs []"

text \<open>The comparison function of generateRecommendations and its table of priorities.\<close>

fun priority_rank :: "goal_priority \<Rightarrow> int" where
  "priority_rank High = 3"
| "priority_rank Medium = 2"
| "priority_rank Low = 1"

definition by_priority :: "recommendation \<Rightarrow> recommendation \<Rightarrow> int" where
  "by_priority a b = priority_rank (r_priority b) - priority_rank (r_priority a)"

text \<open>
  A goal needs a check-in when it has none, or when its last one is more than seven
  days before \<open>now\<close>, the reading of \<open>Date.now()\<close> (one reading stands for those of a
  call of generateRecommendations).
\<close>

definition needs_checkin :: "time \<Rightarrow> goal \<Rightarrow> bool" where
  "needs_checkin now goal =
     (case checkIns goal of
        [] \<Rightarrow> True
      | _ \<Rightarrow> real_of_int (now - c_date (last (checkIns goal))) / (1000 * 60 * 60 * 24) > 7)"

definition generateRecommendations :: "goal list \<Rightarrow> time \<Rightarrow> recommendation list" where
  "generateRecommendations goals now =
     (let activeGoals = filter (\<lambda>goal. status goal = Active) goals;
          recs1 =
            (if length activeGoals > 5
             then [\<lparr>r_priority = High, r_type = ''focus'',
                     r_message = ''Consider focusing on fewer goals. You have ''
                        @ show_nat (length activeGoals)
                        @ '' active goals. Research shows 2-3 goals is optimal for success.'',
                     action = ''Prioritize top 3 goals and pause others''\<rparr>]
             else []);
          goalsNeedingCheckIn = filter (needs_checkin now) activeGoals;
          recs2 =
            (if length goalsNeedingCheckIn > 0
             then recs1 @
                  [\<lparr>r_priority = Medium, r_type = ''checkin'',
                     r_message = show_nat (length goalsNeedingCheckIn)
                        @ '' goal(s) need a progress check-in.'',
                     action = ''Schedule weekly goal reviews''\<rparr>]
             else recs1);
          goalsWithoutMilestones =
            filter (\<lambda>goal. length (milestones goal) = 0 \<and> js_lt (progress goal) (Fin 50))
              activeGoals;
          recs3 =
            (if length goalsWithoutMilestones > 0
             then recs2 @
                  [\<lparr>r_priority = Medium, r_type = ''structure'',
                     r_message = show_nat (length goalsWithoutMilestones)
                        @ '' goal(s) would benefit from milestone planning.'',
                     action = ''Break down goals into smaller, measurable milestones''\<rparr>]
             else recs2)
      in array_sort by_priority recs3)"

section \<open>HTTP responses\<close>

text \<open>
  What a middleware or handler does with a request: it answers, with a status code and
  either a JSON body (\<open>res.status(c).json(body)\<close>) or a rendered view
  (\<open>res.status(c).render(view, locals)\<close>), or it passes the request on.
\<close>

datatype http_response =
    JsonResponse nat jsval
  | RenderResponse nat string jsval

fun status_code :: "http_response \<Rightarrow> nat" where
  "status_code (JsonResponse c b) = c"
| "status_code (RenderResponse c v l) = c"

section \<open>Centralized error handling (middleware/errorHandler.js)\<close>

text \<open>
  An error object as the handlers read it. \<open>name\<close> is the own enumerable property of
  that name: globalErrorHandler works on the copy \<open>{...err}\<close>, which keeps the own
  enumerable properties only, so a name inherited from a prototype is not there. \<open>code\<close>
  is a number (MongoDB) or a string (Node system errors); \<open>keyValue\<close> and \<open>errors\<close> are
  objects, as lists of keys and printed values in insertion order; \<open>response\<close> is the
  optional response of the AI service with its optional status. \<open>isOperational\<close> is the
  truthiness of that property. The stack trace, which the production path only logs, is
  left out.
\<close>

datatype err_code = NoCode | NumCode int | StrCode string

text \<open>A call that returns a value or throws an error with a name.\<close>

datatype 'a outcome = Throws string | Returns 'a

text \<open>
  errorHandler.js binds \<open>logger\<close> to what \<open>require('../utils/logger')\<close> gives, which is
  the export object \<open>{logger, httpLogger, ...}\<close> of utils/logger.js and not the logger in
  it. That object has no \<open>error\<close>, so every call \<open>logger.error(...)\<close> of this module
  throws a TypeError.
\<close>

definition logger_error :: "unit outcome" where
  "logger_error = Throws ''TypeError''"

record app_error =
  name :: "string option"
  message :: string
  statusCode :: "nat option"
  e_status :: "string option"
  isOperational :: bool
  code :: err_code
  keyValue :: "(string \<times> string) list option"
  path :: "string option"
  e_value :: "string option"
  errors :: "(string \<times> string) list option"
  e_type :: "string option"
  response :: "nat option option"
  retryAfter :: "nat option"

text \<open>
  \<open>new AppError(message, statusCode)\<close>: operational by default; \<open>status\<close> is \<open>fail\<close> when
  the printed status code starts with 4. An AppError has no own \<open>name\<close>.
\<close>

definition AppError :: "string \<Rightarrow> nat \<Rightarrow> app_error" where
  "AppError msg sc =
     \<lparr>name = None, message = msg, statusCode = Some sc,
      e_status = Some (if take 1 (show_nat sc) = ''4'' then ''fail'' else ''error''),
      isOperational = True, code = NoCode, keyValue = None, path = None, e_value = None,
      errors = None, e_type = None, response = None, retryAfter = None\<rparr>"

text \<open>
  The translators. Two of them read a property of a property and throw a TypeError when
  the outer one is missing, and handleDBConnectionError logs before it builds its error;
  a thrown error is the left summand.
\<close>

definition handleCastErrorDB :: "app_error \<Rightarrow> app_error" where
  "handleCastErrorDB err =
     AppError (''Invalid '' @ show_opt (path err) @ '': '' @ show_opt (e_value err)) 400"

definition handleDuplicateFieldsDB :: "app_error \<Rightarrow> string + app_error" where
  "handleDuplicateFieldsDB err =
     (case keyValue err of
        None \<Rightarrow> Inl ''TypeError''
      | Some kvs \<Rightarrow>
          let field = (case kvs of [] \<Rightarrow> None | kv # _ \<Rightarrow> Some (fst kv));
              val = (case kvs of [] \<Rightarrow> None | kv # _ \<Rightarrow> Some (snd kv))
          in Inr (AppError (show_opt field @ '' '' @ [CHR 0x27] @ show_opt val @ [CHR 0x27]
                    @ '' already exists. Please use another value.'') 400))"

definition handleValidationErrorDB :: "app_error \<Rightarrow> string + app_error" where
  "handleValidationErrorDB err =
     (case errors err of
        None \<Rightarrow> Inl ''TypeError''
      | Some els \<Rightarrow> Inr (AppError (''Invalid input data: '' @ join ''. '' (map snd els)) 400))"

definition handleJWTError :: app_error where
  "handleJWTError = AppError ''Invalid token. Please log in again.'' 401"

definition handleJWTExpiredError :: app_error where
  "handleJWTExpiredError = AppError ''Your token has expired. Please log in again.'' 401"

definition handleOpenAIError :: "app_error \<Rightarrow> app_error" where
  "handleOpenAIError err =
     (case response err of
        None \<Rightarrow> AppError ''AI service temporarily unavailable. Please try again later.'' 503
      | Some st \<Rightarrow>
          if st = Some 400 then AppError ''Invalid request to AI service.'' 400
          else if st = Some 401 then AppError ''AI service authentication failed.'' 500
          else if st = Some 429
            then AppError ''AI service rate limit exceeded. Please try again later.'' 429
          else if st = Some 500 \<or> st = Some 502 \<or> st = Some 503
            then AppError ''AI service temporarily unavailable.'' 503
          else AppError ''AI service temporarily unavailable. Please try again later.'' 503)"

definition handleDBConnectionError :: "app_error \<Rightarrow> string + app_error" where
  "handleDBConnectionError err =
     (case logger_error of
        Throws thrown \<Rightarrow> Inl thrown
      | Returns _ \<Rightarrow>
          Inr (AppError ''Database temporarily unavailable. Please try again later.'' 503))"

definition handleRateLimitError :: "app_error \<Rightarrow> app_error" where
  "handleRateLimitError err =
     AppError ''Too many requests from this IP. Please try again later.'' 429"

text \<open>
  \<open>handleAPIError\<close> chooses a message and a status code, logs, and returns the AppError;
  it reads \<open>error.name\<close> on the error itself, where an inherited name counts.
  \<open>handleNotFound\<close> builds the 404 error it passes on.
\<close>

definition handleAPIError :: "app_error \<Rightarrow> string + app_error" where
  "handleAPIError error =
     (let chosen =
            (if code error = StrCode ''ECONNREFUSED'' then (''External service unavailable'', 503)
             else if code error = StrCode ''ETIMEDOUT'' then (''Request timeout'', 408)
             else if name error = Some ''ValidationError'' then (''Invalid input data'', 400)
             else (''An error occurred'', 500))
      in case logger_error of
           Throws thrown \<Rightarrow> Inl thrown
         | Returns _ \<Rightarrow> Inr (AppError (fst chosen) (snd chosen)))"

record request =
  originalUrl :: string
  r_method :: string


text \<open>\<open>req.originalUrl.startsWith('/api')\<close>.\<close>

definition api_url :: "request \<Rightarrow> bool" where
  "api_url req = (take 4 (originalUrl req) = ''/api'')"

text \<open>
  \<open>res.status(err.statusCode)\<close> followed by sending: without a status code Node refuses
  to write the head and throws.
\<close>

definition res_status :: "nat option \<Rightarrow> (nat \<Rightarrow> http_response) \<Rightarrow> string + http_response" where
  "res_status sc send =
     (case sc of None \<Rightarrow> Inl ''ERR_HTTP_INVALID_STATUS_CODE'' | Some c \<Rightarrow> Inr (send c))"

definition generic_message :: string where
  "generic_message = ''Something went wrong on our end. Please try again later.''"

text \<open>
  \<open>sendErrorDev\<close>; of the body \<open>{success, error, stack, details}\<close> and the locals
  \<open>{title, msg, error}\<close> the stack and the error object itself are left out.
\<close>

definition sendErrorDev :: "app_error \<Rightarrow> request \<Rightarrow> string + http_response" where
  "sendErrorDev err req =
     (if api_url req
      then res_status (statusCode err) (\<lambda>c. JsonResponse c
             (JObj [(''success'', JBool False), (''error'', JStr (message err))]))
      else res_status (statusCode err) (\<lambda>c. RenderResponse c ''error''
             (JObj [(''title'', JStr ''Something went wrong!''), (''msg'', JStr (message err))])))"

text \<open>
  \<open>sendErrorProd\<close>. Both branches for an error that is not operational call
  \<open>logger.error\<close> before they answer.
\<close>

definition sendErrorProd :: "app_error \<Rightarrow> request \<Rightarrow> string + http_response" where
  "sendErrorProd err req =
     (if api_url req then
        if isOperational err
        then res_status (statusCode err) (\<lambda>c. JsonResponse c
               (JObj ([(''success'', JBool False), (''error'', JStr (message err))]
                  @ (if statusCode err = Some 429
                     then [(''retryAfter'',
                            (case retryAfter err of
                               None \<Rightarrow> JUndefined
                             | Some n \<Rightarrow> JNum (Fin (real n))))]
                     else []))))
        else (case logger_error of
                Throws thrown \<Rightarrow> Inl thrown
              | Returns _ \<Rightarrow>
                  Inr (JsonResponse 500
                    (JObj [(''success'', JBool False), (''error'', JStr generic_message)])))
      else if isOperational err
        then res_status (statusCode err) (\<lambda>c. RenderResponse c ''error''
               (JObj [(''title'', JStr ''Something went wrong!''), (''msg'', JStr (message err))]))
        else (case logger_error of
                Throws thrown \<Rightarrow> Inl thrown
              | Returns _ \<Rightarrow>
                  res_status (statusCode err) (\<lambda>c. RenderResponse c ''error''
                    (JObj [(''title'', JStr ''Something went wrong!''),
                           (''msg'', JStr ''Please try again later.'')]))))"

text \<open>
  The first two statements of globalErrorHandler: \<open>err.statusCode || 500\<close> and
  \<open>err.status || 'error'\<close>, where a missing property, 0 and the empty string are falsy.
\<close>

definition with_defaults :: "app_error \<Rightarrow> app_error" where
  "with_defaults err =
     err\<lparr>statusCode := (case statusCode err of
                           None \<Rightarrow> Some 500
                         | Some c \<Rightarrow> if c = 0 then Some 500 else Some c),
         e_status := (case e_status err of
                        None \<Rightarrow> Some ''error''
                      | Some x \<Rightarrow> if x = [] then Some ''error'' else Some x)\<rparr>"

text \<open>
  The chain of \<open>if\<close> statements of the production branch, each of which may replace
  \<open>error\<close> before the next one tests it.
\<close>

definition translate :: "app_error \<Rightarrow> string + app_error" where
  "translate error0 =
     (let error1 = (if name error0 = Some ''CastError'' then handleCastErrorDB error0 else error0)
      in case (if code error1 = NumCode 11000 then handleDuplicateFieldsDB error1 else Inr error1) of
           Inl thrown \<Rightarrow> Inl thrown
         | Inr error2 \<Rightarrow>
        (case (if name error2 = Some ''ValidationError''
               then handleValidationErrorDB error2 else Inr error2) of
           Inl thrown \<Rightarrow> Inl thrown
         | Inr error3 \<Rightarrow>
        (let error4 = (if name error3 = Some ''JsonWebTokenError'' then handleJWTError else error3);
             error5 = (if name error4 = Some ''TokenExpiredError''
                       then handleJWTExpiredError else error4)
         in case (if name error5 = Some ''MongoNetworkError''
                     \<or> name error5 = Some ''MongoTimeoutError''
                  then handleDBConnectionError error5 else Inr error5) of
              Inl thrown \<Rightarrow> Inl thrown
            | Inr error6 \<Rightarrow>
           (let error7 = (if e_type error6 = Some ''RateLimitError''
                          then handleRateLimitError error6 else error6);
                error8 = (if (case response error7 of
                                Some (Some st) \<Rightarrow> st \<noteq> 0
                              | _ \<Rightarrow> False)
                          then handleOpenAIError error7 else error7)
            in Inr error8))))"

text \<open>\<open>globalErrorHandler\<close>, given the value of \<open>process.env.NODE_ENV\<close>.\<close>

definition globalErrorHandler :: "string option \<Rightarrow> app_error \<Rightarrow> request \<Rightarrow> string + http_response" where
  "globalErrorHandler node_env err req =
     (let err1 = with_defaults err
      in if node_env = Some ''development'' then sendErrorDev err1 req
         else (case translate err1 of
                 Inl thrown \<Rightarrow> Inl thrown
               | Inr error \<Rightarrow> sendErrorProd error req))"

text \<open>An error none of the tests of the chain matches.\<close>

definition untranslated :: "app_error \<Rightarrow> bool" where
  "untranslated err \<longleftrightarrow>
     name err \<noteq> Some ''CastError'' \<and> code err \<noteq> NumCode 11000
     \<and> name err \<noteq> Some ''ValidationError'' \<and> name err \<noteq> Some ''JsonWebTokenError''
     \<and> name err \<noteq> Some ''TokenExpiredError'' \<and> name err \<noteq> Some ''MongoNetworkError''
     \<and> name err \<noteq> Some ''MongoTimeoutError'' \<and> e_type err \<noteq> Some ''RateLimitError''
     \<and> (case response err of Some (Some st) \<Rightarrow> st = 0 | _ \<Rightarrow> True)"

section \<open>Validation and authentication middleware\<close>



text \<open>
  \<open>auth\<close> (middleware/auth.js). What the library and the database do is given: the
  outcome of \<open>Jsonwebtoken.verify\<close> on a token, of \<open>User.findById\<close> on the decoded user id
  and of \<open>user.save()\<close>, each of which either returns or throws an error with a name.
  This module takes \<open>logger\<close> out of the export object of utils/logger.js, so its
  logging calls return.
\<close>

record user =
  u_id :: string
  u_email :: string
  u_status :: "string option"
  role :: "string option"
  lastActive :: time





section \<open>Registration (routes/auth.js)\<close>






text \<open>Requests used for the concrete instances below.\<close>

definition api_request :: request where
  "api_request = \<lparr>originalUrl = ''/api/chat/message'', r_method = ''POST''\<rparr>"


definition jwt_error :: app_error where
  "jwt_error =
     \<lparr>name = Some ''JsonWebTokenError'', message = ''jwt malformed'', statusCode = None,
      e_status = None, isOperational = False, code = NoCode, keyValue = None, path = None,
      e_value = None, errors = None, e_type = None, response = None, retryAfter = None\<rparr>"

definition expired_error :: app_error where
  "expired_error =
     \<lparr>name = Some ''TokenExpiredError'', message = ''jwt expired'', statusCode = None,
      e_status = None, isOperational = False, code = NoCode, keyValue = None, path = None,
      e_value = None, errors = None, e_type = None, response = None, retryAfter = None\<rparr>"

definition type_error :: app_error where
  "type_error =
     \<lparr>name = None, message = ''Cannot read properties of undefined'', statusCode = None,
      e_status = None, isOperational = False, code = NoCode, keyValue = None, path = None,
      e_value = None, errors = None, e_type = None, response = None, retryAfter = None\<rparr>"

text \<open>The status code after \<open>err.statusCode || 500\<close>.\<close>

definition effective_status :: "app_error \<Rightarrow> nat" where
  "effective_status err = (case statusCode err of None \<Rightarrow> 500 | Some c \<Rightarrow> if c = 0 then 500 else c)"

text \<open>
  The status codes of the errors the translators build, and the errors with such a code
  built by \<open>new AppError\<close>.
\<close>

definition translated_codes :: "nat set" where
  "translated_codes = {400, 401, 429, 500, 503}"

definition is_translation :: "app_error \<Rightarrow> bool" where
  "is_translation e \<longleftrightarrow> (\<exists>m c. e = AppError m c \<and> c \<in> translated_codes)"

text \<open>
  The JSON body sendErrorProd sends for an operational error, with \<open>retryAfter\<close> added
  when the status code is 429.
\<close>

definition operational_body :: "app_error \<Rightarrow> jsval" where
  "operational_body e =
     JObj ([(''success'', JBool False), (''error'', JStr (message e))]
        @ (if statusCode e = Some 429
           then [(''retryAfter'',
                  (case retryAfter e of None \<Rightarrow> JUndefined | Some n \<Rightarrow> JNum (Fin (real n))))]
           else []))"

text \<open>
  The errors on which the chain of translators throws instead of returning an error: a
  duplicate-key error without \<open>keyValue\<close>, a ValidationError without \<open>errors\<close>, and
  an error that reaches handleDBConnectionError.
\<close>

definition translation_fails :: "app_error \<Rightarrow> bool" where
  "translation_fails err \<longleftrightarrow>
     name err \<noteq> Some ''CastError'' \<and>
     (if code err = NumCode 11000 then keyValue err = None
      else if name err = Some ''ValidationError'' then errors err = None
      else name err = Some ''MongoNetworkError'' \<or> name err = Some ''MongoTimeoutError'')"





section \<open>Brute force protection (middleware/security.js)\<close>

record attempt_info =
  count :: int
  firstAttempt :: time

record bf_options =
  maxAttempts :: int
  windowMs :: int
  blockDuration :: int

text \<open>The defaults of the destructured \<open>options\<close>.\<close>

definition default_options :: bf_options where
  "default_options = \<lparr>maxAttempts = 5, windowMs = 15 * 60 * 1000, blockDuration = 30 * 60 * 1000\<rparr>"

text \<open>
  The two maps of the closure: \<open>attempts\<close> from a key to its count and first attempt,
  \<open>blocked\<close> from a key to the time \<open>until\<close> of its block.
\<close>

record bf_state =
  attempts :: "string \<rightharpoonup> attempt_info"
  blocked :: "string \<rightharpoonup> time"

definition bf_init :: bf_state where
  "bf_init = \<lparr>attempts = Map.empty, blocked = Map.empty\<rparr>"

text \<open>
  The key \<open>req.ip + ':' + (req.body.email || req.body.username || 'unknown')\<close>; a missing
  or empty string is falsy.
\<close>

definition or_string :: "string option \<Rightarrow> string \<Rightarrow> string" where
  "or_string a b = (case a of None \<Rightarrow> b | Some x \<Rightarrow> if x = [] then b else x)"

definition bf_key :: "string \<Rightarrow> string option \<Rightarrow> string option \<Rightarrow> string" where
  "bf_key ip email username = ip @ '':'' @ or_string email (or_string username ''unknown'')"

text \<open>
  The middleware when a request arrives at time \<open>now\<close>: a blocked key is answered with
  429 and the request goes no further (no \<open>finish\<close> listener is registered); an expired
  block is deleted; otherwise the listener is registered and \<open>next()\<close> is called, which is
  the result \<open>None\<close>.
\<close>

definition bf_request :: "bf_state \<Rightarrow> string \<Rightarrow> time \<Rightarrow> http_response option \<times> bf_state" where
  "bf_request s key now =
     (case blocked s key of
        Some until \<Rightarrow>
          if now < until
          then (Some (JsonResponse 429
                  (JObj [(''success'', JBool False),
                         (''error'', JStr ''Too many failed attempts. Account temporarily locked.''),
                         (''retryAfter'',
                            JNum (Fin (of_int \<lceil>real_of_int (until - now) / 1000\<rceil>)))])), s)
          else (None, s\<lparr>blocked := (blocked s)(key := None)\<rparr>)
      | None \<Rightarrow> (None, s))"

text \<open>
  The \<open>finish\<close> listener of a request that arrived at \<open>now\<close>, run with \<open>res.statusCode\<close>, the
  status code of the response.
\<close>

definition bf_finish :: "bf_options \<Rightarrow> bf_state \<Rightarrow> string \<Rightarrow> time \<Rightarrow> nat \<Rightarrow> bf_state" where
  "bf_finish opts s key now res_statusCode =
     (if res_statusCode = 401 \<or> res_statusCode = 403 then
        let attemptInfo =
              (case attempts s key of
                 None \<Rightarrow> \<lparr>count = 0, firstAttempt = now\<rparr>
               | Some info \<Rightarrow> info);
            attemptInfo' =
              (if now - firstAttempt attemptInfo > windowMs opts
               then \<lparr>count = 1, firstAttempt = now\<rparr>
               else attemptInfo\<lparr>count := count attemptInfo + 1\<rparr>);
            s1 = s\<lparr>attempts := (attempts s)(key \<mapsto> attemptInfo')\<rparr>
        in if count attemptInfo' \<ge> maxAttempts opts
           then s1\<lparr>blocked := (blocked s1)(key \<mapsto> now + blockDuration opts),
                   attempts := (attempts s1)(key := None)\<rparr>
           else s1
      else if res_statusCode \<ge> 200 \<and> res_statusCode < 300 then
        s\<lparr>attempts := (attempts s)(key := None)\<rparr>
      else s)"

text \<open>
  A request served from arrival to the end of its response, requests being served one
  after another: the key, the arrival time, and the status code the wrapped handler
  answers with if the request reaches it. The result is the status code sent, whether the
  wrapped handler was reached, and the state afterwards.
\<close>

type_synonym bf_event = "string \<times> time \<times> nat"

definition bf_serve :: "bf_options \<Rightarrow> bf_state \<Rightarrow> bf_event \<Rightarrow> (nat \<times> bool) \<times> bf_state" where
  "bf_serve opts s ev =
     (case ev of (key, now, handler_status) \<Rightarrow>
        (case bf_request s key now of
           (Some r, s') \<Rightarrow> ((status_code r, False), s')
         | (None, s') \<Rightarrow> ((handler_status, True), bf_finish opts s' key now handler_status)))"

fun bf_run :: "bf_options \<Rightarrow> bf_state \<Rightarrow> bf_event list \<Rightarrow> (nat \<times> bool) list \<times> bf_state" where
  "bf_run opts s [] = ([], s)"
| "bf_run opts s (ev # evs) =
     (case bf_serve opts s ev of
        (r, s') \<Rightarrow> (case bf_run opts s' evs of (rs, s'') \<Rightarrow> (r # rs, s'')))"

text \<open>The count a 401 or 403 response leaves for a key, and the start of its window.\<close>

definition next_count :: "bf_options \<Rightarrow> bf_state \<Rightarrow> string \<Rightarrow> time \<Rightarrow> int" where
  "next_count opts s key now =
     (case attempts s key of
        None \<Rightarrow> 1
      | Some info \<Rightarrow> if now - firstAttempt info > windowMs opts then 1 else count info + 1)"

definition next_first :: "bf_options \<Rightarrow> bf_state \<Rightarrow> string \<Rightarrow> time \<Rightarrow> time" where
  "next_first opts s key now =
     (case attempts s key of
        None \<Rightarrow> now
      | Some info \<Rightarrow> if now - firstAttempt info > windowMs opts then now else firstAttempt info)"

text \<open>
  Six failed logins of one key: at 0, 10, 11, 12, 16 and 17 minutes. The last five lie
  within seven minutes.
\<close>

definition key1 :: string where
  "key1 = bf_key ''10.0.0.1'' (Some ''ann@example.org'') None"

definition six_failures :: "bf_event list" where
  "six_failures =
     [(key1, 0, 401), (key1, 600000, 401), (key1, 660000, 401), (key1, 720000, 401),
      (key1, 960000, 401), (key1, 1020000, 401)]"

definition five_failures :: "bf_event list" where
  "five_failures =
     [(key1, 0, 401), (key1, 1000, 403), (key1, 2000, 401), (key1, 3000, 401), (key1, 4000, 401)]"

text \<open>A failed attempt is a response with status 401 or 403.\<close>

definition failure :: "nat \<Rightarrow> bool" where
  "failure st \<longleftrightarrow> st = 401 \<or> st = 403"

text \<open>
  The requests of one key among those served, and the answers they got.
\<close>

definition for_key :: "string \<Rightarrow> bf_event list \<Rightarrow> bf_event list" where
  "for_key k evs = filter (\<lambda>ev. fst ev = k) evs"

definition responses_for :: "string \<Rightarrow> bf_event list \<Rightarrow> (nat \<times> bool) list \<Rightarrow> (nat \<times> bool) list" where
  "responses_for k evs rs = map snd (filter (\<lambda>p. fst (fst p) = k) (zip evs rs))"

text \<open>The arrival time and the handler's status code of a request.\<close>

abbreviation ev_time :: "bf_event \<Rightarrow> time" where "ev_time ev \<equiv> fst (snd ev)"

abbreviation ev_status :: "bf_event \<Rightarrow> nat" where "ev_status ev \<equiv> snd (snd ev)"

text \<open>The state after the five failures, and requests that arrive during the block.\<close>

definition blocked_state :: bf_state where
  "blocked_state = snd (bf_run default_options bf_init five_failures)"

definition while_blocked :: "bf_event list" where
  "while_blocked = [(key1, 5000, 200), (''10.0.0.2:unknown'', 6000, 401), (key1, 1803999, 401)]"

section \<open>Messages (models/Message.js, routes/chat.js)\<close>

text \<open>
  A Message document. \<open>metadata\<close> maps a path below \<open>metadata\<close> to its value; the
  embedding is an array of numbers, empty by default. The schema has the option
  \<open>timestamps: true\<close>, so the document carries \<open>createdAt\<close> and \<open>updatedAt\<close>, which
  mongoose sets when the document is first saved.
\<close>

record message =
  m_id :: string
  m_userId :: string
  conversationId :: string
  m_type :: string
  content :: string
  metadata :: "string \<rightharpoonup> jsval"
  embedding :: "jsnum list"
  createdAt :: time
  updatedAt :: time

text \<open>The messages collection, in the order of insertion.\<close>

type_synonym message_store = "message list"

text \<open>The paths the schema declares below \<open>metadata\<close>.\<close>

definition metadata_schema :: "string list" where
  "metadata_schema = [''goalContext'', ''sentiment'', ''intent'', ''confidence'']"

text \<open>
  \<open>Message.findOneAndUpdate(filter, update, {new: true})\<close>: the first document the filter
  matches is updated; the result is the updated document, or null if there is none, and
  the collection afterwards.
\<close>

fun findOneAndUpdate ::
  "(message \<Rightarrow> bool) \<Rightarrow> (message \<Rightarrow> message) \<Rightarrow> message_store \<Rightarrow> message option \<times> message_store" where
  "findOneAndUpdate flt upd [] = (None, [])"
| "findOneAndUpdate flt upd (m # ms) =
     (if flt m then (Some (upd m), upd m # ms)
      else (case findOneAndUpdate flt upd ms of (found, ms') \<Rightarrow> (found, m # ms')))"

text \<open>
  How mongoose applies an update \<open>{$set: {...}}\<close> of paths below \<open>metadata\<close> to a document
  of this schema. The schema leaves the option \<open>strict\<close> at its default, under which an
  entry for a path the schema does not declare is dropped from the update; and with
  \<open>timestamps: true\<close> every update sets \<open>updatedAt\<close> to the time of the update.
\<close>

definition strict_set :: "(string \<times> jsval) list \<Rightarrow> message \<Rightarrow> message" where
  "strict_set sets m =
     m\<lparr>metadata :=
         foldl (\<lambda>md kv. if fst kv \<in> set metadata_schema then md(fst kv \<mapsto> snd kv) else md)
           (metadata m) sets\<rparr>"

definition mongoose_update :: "(string \<times> jsval) list \<Rightarrow> time \<Rightarrow> message \<Rightarrow> message" where
  "mongoose_update sets t_update m = (strict_set sets m)\<lparr>updatedAt := t_update\<rparr>"

text \<open>
  The update of the feedback endpoint, \<open>{$set: {'metadata.userRating': rating,
  'metadata.userFeedback': feedback, 'metadata.feedbackDate': new Date()}}\<close>, as the
  entries below \<open>metadata\<close>.
\<close>

definition feedback_update :: "jsval \<Rightarrow> jsval \<Rightarrow> time \<Rightarrow> (string \<times> jsval) list" where
  "feedback_update rating feedback now =
     [(''userRating'', rating), (''userFeedback'', feedback), (''feedbackDate'', JDate now)]"

text \<open>
  \<open>POST /api/chat/feedback\<close>, with the filter \<open>{_id: messageId, userId}\<close>. \<open>now\<close> is the
  handler's \<open>new Date()\<close> and \<open>t_update\<close> the time mongoose stamps the update with;
  \<open>db_throws\<close> tells whether the database call throws, which the handler catches.
\<close>

definition post_feedback ::
  "message_store \<Rightarrow> string \<Rightarrow> string \<Rightarrow> jsval \<Rightarrow> jsval \<Rightarrow> time \<Rightarrow> time \<Rightarrow> bool
     \<Rightarrow> http_response \<times> message_store" where
  "post_feedback store messageId uid rating feedback now t_update db_throws =
     (if db_throws
      then (JsonResponse 500
              (JObj [(''success'', JBool False), (''error'', JStr ''Failed to record feedback'')]),
            store)
      else
        (case findOneAndUpdate (\<lambda>m. m_id m = messageId \<and> m_userId m = uid)
                (mongoose_update (feedback_update rating feedback now) t_update) store of
           (None, store') \<Rightarrow>
             (JsonResponse 404
                (JObj [(''success'', JBool False), (''error'', JStr ''Message not found'')]),
              store')
         | (Some m, store') \<Rightarrow>
             (JsonResponse 200
                (JObj [(''success'', JBool True), (''message'', JStr ''Feedback recorded'')]),
              store')))"

text \<open>
  Two documents that differ at most in \<open>updatedAt\<close> and in the three feedback fields of
  \<open>metadata\<close>.
\<close>

definition feedback_fields :: "string set" where
  "feedback_fields = {''userRating'', ''userFeedback'', ''feedbackDate''}"

definition same_but_feedback :: "message \<Rightarrow> message \<Rightarrow> bool" where
  "same_but_feedback m m' \<longleftrightarrow>
     m_id m' = m_id m \<and> m_userId m' = m_userId m \<and> conversationId m' = conversationId m
     \<and> m_type m' = m_type m \<and> content m' = content m \<and> embedding m' = embedding m
     \<and> createdAt m' = createdAt m
     \<and> (\<forall>k. k \<notin> feedback_fields \<longrightarrow> metadata m' k = metadata m k)"

text \<open>
  \<open>POST /api/chat/message\<close>, as the status code of the response and the collection
  afterwards. Given are the ids of the two new documents, the times of the two saves, and
  the outcomes of the calls the handler awaits: \<open>generateEmbedding\<close> for the user's
  message, the first \<open>save\<close>, everything from loading the context to storing the
  conversation (which yields the content, the metadata and the optional embedding of the
  answer), and the second \<open>save\<close>. The conversation id defaults to \<open>conv_\<close> and the clock
  reading. Of the metadata given to \<open>new Message\<close> the declared paths are kept.
\<close>

definition new_message ::
  "string \<Rightarrow> string \<Rightarrow> string \<Rightarrow> string \<Rightarrow> string \<Rightarrow> (string \<rightharpoonup> jsval) \<Rightarrow> time \<Rightarrow> message" where
  "new_message new_id uid conv ty msg_text meta t_saved =
     \<lparr>m_id = new_id, m_userId = uid, conversationId = conv, m_type = ty, content = msg_text,
      metadata = meta |` set metadata_schema, embedding = [],
      createdAt = t_saved, updatedAt = t_saved\<rparr>"

definition with_embedding :: "jsnum list option \<Rightarrow> message \<Rightarrow> message" where
  "with_embedding emb m = (case emb of None \<Rightarrow> m | Some e \<Rightarrow> m\<lparr>embedding := e\<rparr>)"

definition post_message ::
  "message_store \<Rightarrow> string \<Rightarrow> string \<Rightarrow> string option \<Rightarrow> time \<Rightarrow> string \<Rightarrow> string
     \<Rightarrow> time \<Rightarrow> time \<Rightarrow> jsnum list option outcome \<Rightarrow> unit outcome
     \<Rightarrow> (string \<times> (string \<rightharpoonup> jsval) \<times> jsnum list option) outcome \<Rightarrow> unit outcome
     \<Rightarrow> nat \<times> message_store" where
  "post_message store uid msg_text conv now id_user id_ai t_user t_ai emb save_user ai save_ai =
     (let userMessage0 =
            new_message id_user uid (or_string conv (''conv_'' @ show_nat (nat now)))
              ''user'' msg_text Map.empty t_user
      in case emb of
           Throws e \<Rightarrow> (500, store)
         | Returns user_embedding \<Rightarrow>
        (let userMessage = with_embedding user_embedding userMessage0
         in case save_user of
              Throws e \<Rightarrow> (500, store)
            | Returns _ \<Rightarrow>
           (let store1 = store @ [userMessage]
            in case ai of
                 Throws e \<Rightarrow> (500, store1)
               | Returns aiResponse \<Rightarrow>
              (let aiMessage =
                     with_embedding (snd (snd aiResponse))
                       (new_message id_ai uid (conversationId userMessage) ''ai''
                          (fst aiResponse) (fst (snd aiResponse)) t_ai)
               in case save_ai of
                    Throws e \<Rightarrow> (500, store1)
                  | Returns _ \<Rightarrow> (200, store1 @ [aiMessage])))))"

text \<open>
  \<open>Message.deleteMany({userId: user._id})\<close>, which \<open>DELETE /api/users/profile\<close> runs
  when it deletes an account.
\<close>

definition deleteMany :: "(message \<Rightarrow> bool) \<Rightarrow> message_store \<Rightarrow> message_store" where
  "deleteMany flt store = filter (\<lambda>m. \<not> flt m) store"

definition delete_profile_messages :: "message_store \<Rightarrow> string \<Rightarrow> message_store" where
  "delete_profile_messages store uid = deleteMany (\<lambda>m. m_userId m = uid) store"

text \<open>Two messages used for the concrete instances below.\<close>

definition msg1 :: message where
  "msg1 = new_message ''m1'' ''u1'' ''conv_1'' ''ai'' ''Keep going!''
            [''intent'' \<mapsto> JStr ''motivation''] 100"

definition msg2 :: message where
  "msg2 = new_message ''m2'' ''u2'' ''conv_2'' ''ai'' ''Well done.'' Map.empty 200"

section \<open>Orders and concrete inputs\<close>

text \<open>
  The order of the claim: a recommendation stands before another only if its priority
  is at least as high.
\<close>

definition prio_ge :: "recommendation \<Rightarrow> recommendation \<Rightarrow> bool" where
  "prio_ge a b \<longleftrightarrow> priority_rank (r_priority a) \<ge> priority_rank (r_priority b)"

text \<open>Lists of goals used for the concrete instances below.\<close>

definition goals3 :: "goal list" where
  "goals3 = [goal0\<lparr>progress := Fin 50\<rparr>, goal0\<lparr>progress := Fin 75\<rparr>,
             goal0\<lparr>status := Completed, progress := Fin 100\<rparr>]"

definition close_goals :: "goal list" where
  "close_goals = [goal0\<lparr>progress := Fin 80\<rparr>, goal0\<lparr>progress := Fin just_below_80\<rparr>]"

definition goals6 :: "goal list" where
  "goals6 = [goal0, goal0, goal0\<lparr>status := Paused\<rparr>, goal0, goal0, goal0, goal0]"

section \<open>Properties of updateProgress\<close>

lemma progress_updateProgress:
  "progress (updateProgress g p n t1 t2) = math_max (Fin 0) (math_min (Fin 100) p)"
  by (simp add: updateProgress_def Let_def)

lemma clamp_in_range:
  "p \<noteq> NaN \<Longrightarrow> in_range_0_100 (math_max (Fin 0) (math_min (Fin 100) p))"
  by (cases p) (auto simp: in_range_0_100_def math_max_def math_min_def)

lemma clamp_NaN: "math_max (Fin 0) (math_min (Fin 100) NaN) = NaN"
  by (simp add: math_max_def math_min_def)

text \<open>
  C1. For every goal and every numeric input \<open>newProgress\<close>, \<open>updateProgress\<close> sets the
  goal's progress to the maximum of 0 and the minimum of 100 and \<open>newProgress\<close>, and the
  stored progress then lies between 0 and 100. A numeric input is a number other than NaN
  ("not a number"): a finite number, clamped as a real, or an infinity, which becomes
  100 or 0.
\<close>

theorem updateProgress_clamps:
  "(\<forall>r. newProgress = Fin r \<longrightarrow>
        progress (updateProgress g newProgress note t1 t2) = Fin (max 0 (min 100 r)))
   \<and> (newProgress = PosInf \<longrightarrow> progress (updateProgress g newProgress note t1 t2) = Fin 100)
   \<and> (newProgress = NegInf \<longrightarrow> progress (updateProgress g newProgress note t1 t2) = Fin 0)
   \<and> (newProgress \<noteq> NaN \<longrightarrow> in_range_0_100 (progress (updateProgress g newProgress note t1 t2)))"
  by (cases newProgress)
     (auto simp: progress_updateProgress in_range_0_100_def math_max_def math_min_def)

theorem updateProgress_clamps_witness:
  "progress (updateProgress goal0 (Fin 150) None 2000 2001) = Fin 100
   \<and> progress (updateProgress goal0 (Fin (-3)) None 2000 2001) = Fin 0
   \<and> progress (updateProgress goal0 (Fin 42) None 2000 2001) = Fin 42
   \<and> progress (updateProgress goal0 PosInf None 2000 2001) = Fin 100
   \<and> progress (updateProgress goal0 NegInf None 2000 2001) = Fin 0
   \<and> Fin 150 \<noteq> NaN
   \<and> in_range_0_100 (progress (updateProgress goal0 (Fin 150) None 2000 2001))"
  using updateProgress_clamps [of "Fin 150" goal0 None 2000 2001]
    updateProgress_clamps [of "Fin (-3)" goal0 None 2000 2001]
    updateProgress_clamps [of "Fin 42" goal0 None 2000 2001]
    updateProgress_clamps [of PosInf goal0 None 2000 2001]
    updateProgress_clamps [of NegInf goal0 None 2000 2001]
  by (simp add: in_range_0_100_def)

text \<open>
  With NaN the method stores NaN: the clamp does not bring it into the interval.
\<close>

lemma updateProgress_NaN:
  "progress (updateProgress g NaN note t1 t2) = NaN"
  by (simp add: progress_updateProgress clamp_NaN)

section \<open>Status and progress\<close>

lemma js_eq_Fin [simp]: "js_eq x (Fin r) \<longleftrightarrow> x = Fin r"
  by (auto simp: js_eq_def)

lemma progressHistory_updateProgress:
  "progressHistory (updateProgress g p n t1 t2) =
     progressHistory g @
       [\<lparr>h_date = t1, h_progress = math_max (Fin 0) (math_min (Fin 100) p), h_note = n\<rparr>]"
  by (simp add: updateProgress_def Let_def)

lemma checkIns_updateProgress: "checkIns (updateProgress g p n t1 t2) = checkIns g"
  by (simp add: updateProgress_def Let_def)

lemma status_updateProgress:
  "status (updateProgress g p n t1 t2) =
     (if math_max (Fin 0) (math_min (Fin 100) p) = Fin 100 then Completed else status g)"
  by (simp add: updateProgress_def Let_def)

lemma checkin_fields:
  "progress (checkin g mo co ob wi n now) = progress g"
  "status (checkin g mo co ob wi n now) = status g"
  "progressHistory (checkin g mo co ob wi n now) = progressHistory g"
  "checkIns (checkin g mo co ob wi n now) =
     checkIns g @ [\<lparr>c_date = now, mood = mo, confidence = co, obstacles = ob, wins = wi, c_note = n\<rparr>]"
  by (simp_all add: checkin_def)

lemma completed_inv_new_goal: "completed_inv (new_goal uid ti de ca ty td ms now)"
  by (simp add: completed_inv_def new_goal_def)

lemma completed_inv_apply_op:
  assumes "completed_inv g"
  shows "completed_inv (apply_op g op)"
proof (cases op)
  case (UpdateProgress p n t1 t2)
  with assms show ?thesis
    by (auto simp: completed_inv_def progress_updateProgress status_updateProgress
        progressHistory_updateProgress)
next
  case (CheckIn mo co ob wi n now)
  with assms show ?thesis
    by (simp add: completed_inv_def checkin_fields)
qed

lemma reachable_completed_inv: "reachable g \<Longrightarrow> completed_inv g"
  by (induction rule: reachable.induct)
     (simp_all add: completed_inv_new_goal completed_inv_apply_op)

lemma reachable_apply_ops: "reachable g \<Longrightarrow> reachable (apply_ops g ops)"
  unfolding apply_ops_def
  by (induction ops arbitrary: g) (simp_all add: reachable.stepped)

lemma reachable_goal0: "reachable goal0"
  unfolding goal0_def by (rule reachable.created)

text \<open>
  C2, as stated, fails: a goal that reached 100 and is then updated to 50 keeps the status
  \<open>completed\<close> with progress 50.
\<close>

theorem completed_iff_progress_100_counterexample:
  "reachable (apply_ops goal0
      [UpdateProgress (Fin 100) None 2000 2001, UpdateProgress (Fin 50) None 3000 3001])
   \<and> status (apply_ops goal0
      [UpdateProgress (Fin 100) None 2000 2001, UpdateProgress (Fin 50) None 3000 3001])
       = Completed
   \<and> progress (apply_ops goal0
      [UpdateProgress (Fin 100) None 2000 2001, UpdateProgress (Fin 50) None 3000 3001])
       = Fin 50"
  by (simp add: reachable_apply_ops reachable_goal0)
     (simp add: apply_ops_def status_updateProgress progress_updateProgress
        math_max_def math_min_def)

text \<open>
  C2, amended. For every goal reachable from a freshly created goal by updateProgress
  calls and check-ins: a progress of 100 implies the status \<open>completed\<close>, and the status
  is \<open>completed\<close> exactly when some entry of the progress history records 100, that is,
  when progress has reached 100 at some update; a later update may lower the progress
  and the status stays \<open>completed\<close>.
\<close>

theorem completed_iff_reached_100:
  assumes "reachable g"
  shows "(progress g = Fin 100 \<longrightarrow> status g = Completed)
       \<and> (status g = Completed \<longleftrightarrow> (\<exists>e \<in> set (progressHistory g). h_progress e = Fin 100))"
  using reachable_completed_inv [OF assms] by (simp add: completed_inv_def)

theorem completed_iff_reached_100_witness:
  "reachable (apply_ops goal0 [UpdateProgress (Fin 120) (Some ''done'') 2000 2001])
   \<and> progress (apply_ops goal0 [UpdateProgress (Fin 120) (Some ''done'') 2000 2001]) = Fin 100
   \<and> status (apply_ops goal0 [UpdateProgress (Fin 120) (Some ''done'') 2000 2001]) = Completed
   \<and> (\<exists>e \<in> set (progressHistory
          (apply_ops goal0 [UpdateProgress (Fin 120) (Some ''done'') 2000 2001])).
        h_progress e = Fin 100)"
proof -
  let ?g = "apply_ops goal0 [UpdateProgress (Fin 120) (Some ''done'') 2000 2001]"
  have r: "reachable ?g"
    by (simp add: reachable_apply_ops reachable_goal0)
  have p: "progress ?g = Fin 100"
    by (simp add: apply_ops_def progress_updateProgress math_max_def math_min_def)
  from completed_iff_reached_100 [OF r] p r show ?thesis
    by blast
qed

section \<open>The logs are append-only\<close>

lemma prefix_logs_apply_op:
  "prefix (progressHistory g) (progressHistory (apply_op g op))"
  "prefix (checkIns g) (checkIns (apply_op g op))"
  by (cases op; simp add: progressHistory_updateProgress checkIns_updateProgress checkin_fields)+

lemma prefix_logs_apply_ops:
  "prefix (progressHistory g) (progressHistory (apply_ops g ops))
   \<and> prefix (checkIns g) (checkIns (apply_ops g ops))"
  unfolding apply_ops_def
proof (induction ops arbitrary: g)
  case Nil
  show ?case by simp
next
  case (Cons op ops)
  from Cons.IH [of "apply_op g op"] prefix_logs_apply_op [of g op]
  show ?case by (auto intro: prefix_order.trans)
qed

text \<open>
  C3. updateProgress appends exactly one entry to progressHistory, keeps the entries that
  were there and leaves checkIns as it was; the check-in appends exactly one entry to
  checkIns, keeps the entries that were there and leaves progressHistory as it was; after
  any sequence of the two operations each log still starts with its old entries.
\<close>

theorem logs_append_only:
  "progressHistory (updateProgress g p note t1 t2) =
     progressHistory g @
       [\<lparr>h_date = t1, h_progress = progress (updateProgress g p note t1 t2), h_note = note\<rparr>]
   \<and> checkIns (updateProgress g p note t1 t2) = checkIns g
   \<and> checkIns (checkin g mo co ob wi cnote now) =
       checkIns g @
         [\<lparr>c_date = now, mood = mo, confidence = co, obstacles = ob, wins = wi, c_note = cnote\<rparr>]
   \<and> progressHistory (checkin g mo co ob wi cnote now) = progressHistory g
   \<and> prefix (progressHistory g) (progressHistory (apply_ops g ops))
   \<and> prefix (checkIns g) (checkIns (apply_ops g ops))"
  by (simp add: progressHistory_updateProgress progress_updateProgress checkIns_updateProgress
      checkin_fields prefix_logs_apply_ops)

text \<open>
  The same through the two handlers: a request changes at most the addressed document of
  the collection, and its logs only grow.
\<close>

lemma put_progress_store:
  "snd (put_progress store goalId uid p note t1 t2 saved metrics_updated) i =
     (if i = goalId \<and> saved \<and> findOne store goalId uid \<noteq> None
      then map_option (\<lambda>g. updateProgress g p note t1 t2) (store i)
      else store i)"
  by (auto simp: put_progress_def findOne_def Let_def split: option.splits)

lemma post_checkin_store:
  "snd (post_checkin store goalId uid mo co ob wi note now saved) i =
     (if i = goalId \<and> saved \<and> findOne store goalId uid \<noteq> None
      then map_option (\<lambda>g. checkin g mo co ob wi note now) (store i)
      else store i)"
  by (auto simp: post_checkin_def findOne_def split: option.splits)

section \<open>Rounding to doubles\<close>

lemma round_even_close: "\<bar>of_int (round_even m) - m\<bar> \<le> 1 / 2"
  unfolding round_even_def Let_def by (auto; linarith)

lemma round_even_of_int [simp]: "round_even (of_int k) = k"
  by (simp add: round_even_def)

lemma powi_powr: "(2::real) powi e = 2 powr (real_of_int e)"
  by (simp add: powr_real_of_int')

lemma floor_log2_eq:
  assumes "(2::real) powi e \<le> \<bar>x\<bar>" "\<bar>x\<bar> < 2 powi (e + 1)"
  shows "\<lfloor>log 2 \<bar>x\<bar>\<rfloor> = e"
proof -
  have pos: "0 < \<bar>x\<bar>"
    using assms(1) zero_less_power_int [of "2::real" e] by linarith
  show ?thesis
    using assms floor_log_eq_powr_iff [of "\<bar>x\<bar>" 2 e] pos
    by (simp add: powi_powr)
qed

lemma floor_log2_bounds:
  assumes "x \<noteq> 0"
  shows "(2::real) powi \<lfloor>log 2 \<bar>x\<bar>\<rfloor> \<le> \<bar>x\<bar>" "\<bar>x\<bar> < 2 powi (\<lfloor>log 2 \<bar>x\<bar>\<rfloor> + 1)"
  using assms floor_log_eq_powr_iff [of "\<bar>x\<bar>" 2 "\<lfloor>log 2 \<bar>x\<bar>\<rfloor>"]
  by (simp_all add: powi_powr)

lemma expo_eq:
  assumes "(2::real) powi e \<le> \<bar>x\<bar>" "\<bar>x\<bar> < 2 powi (e + 1)" "- 1022 \<le> e"
  shows "expo x = e"
  using floor_log2_eq [OF assms(1,2)] assms(3) by (simp add: expo_def)

lemma expo_upper: 
  assumes "x \<noteq> 0" "\<bar>x\<bar> < 2 powi (t + 53)" "- 1074 \<le> t"
  shows "expo x \<le> t + 52"
proof -
  have "\<lfloor>log 2 \<bar>x\<bar>\<rfloor> < t + 53"
  proof (rule ccontr)
    assume "\<not> \<lfloor>log 2 \<bar>x\<bar>\<rfloor> < t + 53"
    then have "t + 53 \<le> \<lfloor>log 2 \<bar>x\<bar>\<rfloor>" by linarith
    then have "(2::real) powi (t + 53) \<le> 2 powi \<lfloor>log 2 \<bar>x\<bar>\<rfloor>"
      by (intro power_int_increasing) simp_all
    with floor_log2_bounds(1) [OF assms(1)] assms(2) show False by linarith
  qed
  with assms(3) show ?thesis by (simp add: expo_def)
qed

lemma to_double_exact:
  assumes x: "x = of_int m * 2 powi t" and m: "\<bar>m\<bar> < 2 ^ 53" and t: "- 1074 \<le> t"
    and small: "\<bar>x\<bar> < 2 powi 1024"
  shows "to_double x = Fin x"
proof (cases "x = 0")
  case True
  then show ?thesis by (simp add: to_double_def)
next
  case False
  have "\<bar>x\<bar> = \<bar>of_int m\<bar> * 2 powi t"
    by (simp add: x abs_mult)
  also have "\<dots> < 2 ^ 53 * 2 powi t"
  proof -
    have "real_of_int \<bar>m\<bar> < real_of_int (2 ^ 53)"
      using m by (simp only: of_int_less_iff)
    then have "\<bar>real_of_int m\<bar> < 2 ^ 53" by simp
    then show ?thesis
      by (intro mult_strict_right_mono) simp_all
  qed
  also have "\<dots> = 2 powi (t + 53)"
    by (simp add: power_int_add)
  finally have "\<bar>x\<bar> < 2 powi (t + 53)" .
  from expo_upper [OF False this t] have e: "expo x \<le> t + 52" .
  define d where "d = nat (t + 52 - expo x)"
  have d: "int d = t + 52 - expo x"
    using e by (simp add: d_def)
  have "x / 2 powi (expo x - 52) = of_int m * 2 powi (t - (expo x - 52))"
    by (simp add: x power_int_diff)
  also have "t - (expo x - 52) = int d"
    using d by simp
  also have "of_int m * (2::real) powi (int d) = of_int (m * 2 ^ d)"
    by simp
  finally have q: "x / 2 powi (expo x - 52) = of_int (m * 2 ^ d)" .
  have r: "2 powi (expo x - 52) * of_int (round_even (x / 2 powi (expo x - 52))) = x"
    unfolding q round_even_of_int using q by (simp add: field_simps)
  show ?thesis
    using False small by (simp add: to_double_def Let_def r)
qed

lemma to_double_of_int:
  assumes "\<bar>k\<bar> < 2 ^ 53"
  shows "to_double (of_int k) = Fin (of_int k)"
proof -
  have "real_of_int \<bar>k\<bar> < real_of_int (2 ^ 53)"
    using assms by (simp only: of_int_less_iff)
  then have "\<bar>real_of_int k\<bar> < 2 ^ 53" by simp
  also have "\<dots> \<le> 2 powi 1024" by simp
  finally show ?thesis
    using to_double_exact [of "of_int k" k 0] assms by simp
qed

lemma to_double_error:
  assumes "x \<noteq> 0" "to_double x = Fin y"
  shows "\<bar>y - x\<bar> \<le> 2 powi (expo x - 53)"
proof -
  define q :: real where "q = 2 powi (expo x - 52)"
  have q: "0 < q" by (simp add: q_def)
  from assms have y: "y = q * of_int (round_even (x / q))"
    by (auto simp: to_double_def Let_def q_def split: if_splits)
  have "y - x = q * (of_int (round_even (x / q)) - x / q)"
    using q by (simp add: y field_simps)
  then have "\<bar>y - x\<bar> = q * \<bar>of_int (round_even (x / q)) - x / q\<bar>"
    using q by (simp add: abs_mult)
  also have "\<dots> \<le> q * (1 / 2)"
    using q round_even_close [of "x / q"] by (intro mult_left_mono) simp_all
  also have "\<dots> = 2 powi (expo x - 53)"
    by (simp add: q_def power_int_diff)
  finally show ?thesis .
qed

lemma to_double_small:
  assumes "x \<noteq> 0" "\<bar>x\<bar> < 2 powi 53"
  shows "\<exists>y. to_double x = Fin y"
proof -
  define q :: real where "q = 2 powi (expo x - 52)"
  define r where "r = q * of_int (round_even (x / q))"
  have q: "0 < q" by (simp add: q_def)
  from expo_upper [OF assms(1), of 0] assms(2) have "expo x \<le> 52" by simp
  then have "q \<le> 2 powi 0"
    unfolding q_def by (intro power_int_increasing) simp_all
  then have q1: "q \<le> 1" by simp
  have "r - x = q * (of_int (round_even (x / q)) - x / q)"
    using q by (simp add: r_def field_simps)
  then have "\<bar>r - x\<bar> = q * \<bar>of_int (round_even (x / q)) - x / q\<bar>"
    using q by (simp add: abs_mult)
  also have "\<dots> \<le> 1 * (1 / 2)"
    using q q1 round_even_close [of "x / q"] by (intro mult_mono) simp_all
  finally have "\<bar>r\<bar> \<le> \<bar>x\<bar> + 1" by linarith
  also have "\<dots> < 2 powi 53 + 1" using assms(2) by simp
  also have "\<dots> \<le> 2 powi 54" by simp
  also have "\<dots> \<le> 2 powi 1024"
    by (intro power_int_increasing) simp_all
  finally have "\<not> \<bar>r\<bar> \<ge> 2 powi 1024" by simp
  then show ?thesis
    using assms(1) unfolding to_double_def Let_def q_def [symmetric] r_def [symmetric]
    by (simp del: power_int_numeral)
qed

lemma quotient_decides:
  fixes s n :: nat
  assumes n: "0 < n" "n < 2 ^ 32" and s: "s < 2 ^ 52"
  shows "\<exists>y. to_double (real s / real n) = Fin y
           \<and> (\<forall>j::int. (of_int j / 2 \<le> y) = (of_int j / 2 \<le> real s / real n))"
proof (cases "s = 0")
  case True
  then show ?thesis by (simp add: to_double_def)
next
  case False
  define x where "x = real s / real n"
  have xpos: "0 < x" using False n by (simp add: x_def)
  have rs: "real s < 2 ^ 52"
    using s by (metis of_nat_less_numeral_power_cancel_iff)
  have rn: "real n < 2 ^ 32"
    using n(2) by (metis of_nat_less_numeral_power_cancel_iff)
  have xs: "x \<le> real s"
  proof -
    have "1 \<le> real n" using n(1) by simp
    then have "real s / real n \<le> real s / 1"
      by (intro divide_left_mono) simp_all
    then show ?thesis by (simp add: x_def)
  qed
  have xlow: "2 powi (- 32) \<le> x"
  proof -
    have "1 / 2 ^ 32 \<le> 1 / real n"
      using rn n(1) by (intro divide_left_mono) simp_all
    also have "\<dots> \<le> x"
      using False n by (simp add: x_def field_simps)
    finally show ?thesis by (simp add: power_int_minus inverse_eq_divide)
  qed
  have x0: "x \<noteq> 0" using xpos by simp
  have xabs: "\<bar>x\<bar> = x" using xpos by simp
  have fl32: "- 32 \<le> \<lfloor>log 2 \<bar>x\<bar>\<rfloor>"
  proof (rule ccontr)
    assume "\<not> - 32 \<le> \<lfloor>log 2 \<bar>x\<bar>\<rfloor>"
    then have "\<lfloor>log 2 \<bar>x\<bar>\<rfloor> + 1 \<le> - 32" by linarith
    then have "(2::real) powi (\<lfloor>log 2 \<bar>x\<bar>\<rfloor> + 1) \<le> 2 powi (- 32)"
      by (intro power_int_increasing) simp_all
    with floor_log2_bounds(2) [OF x0] xlow xabs show False by linarith
  qed
  then have ex: "expo x = \<lfloor>log 2 \<bar>x\<bar>\<rfloor>" by (simp add: expo_def)
  have ple: "2 powi (expo x) \<le> x"
    using floor_log2_bounds(1) [OF x0] ex xabs by simp
  have "\<bar>x\<bar> < 2 powi 53"
    using xs rs xabs by simp
  from to_double_small [OF x0 this] obtain y where y: "to_double x = Fin y" by blast
  have "\<bar>y - x\<bar> \<le> 2 powi (expo x - 53)"
    by (rule to_double_error [OF x0 y])
  also have "\<dots> = 2 powi (expo x) / 2 ^ 53"
    by (simp add: power_int_diff)
  also have "\<dots> \<le> x / 2 ^ 53"
    using ple by (simp add: divide_right_mono)
  also have "\<dots> < 1 / (2 * real n)"
  proof -
    have "x / 2 ^ 53 = real s / (real n * 2 ^ 53)" by (simp add: x_def)
    also have "\<dots> < 2 ^ 52 / (real n * 2 ^ 53)"
      using rs n(1) by (intro divide_strict_right_mono) simp_all
    also have "\<dots> = 1 / (2 * real n)" by simp
    finally show ?thesis .
  qed
  finally have err: "\<bar>y - x\<bar> < 1 / (2 * real n)" .
  have dec: "(of_int j / 2 \<le> y) = (of_int j / 2 \<le> x)" for j :: int
  proof (cases "x = of_int j / 2")
    case True
    have jx: "of_int j = 2 * x" using True by simp
    have "real_of_int j < real_of_int (2 ^ 53)" using jx xs rs by simp
    then have "j < 2 ^ 53" by (simp only: of_int_less_iff)
    moreover have "0 < real_of_int j" using jx xpos by simp
    then have "0 < j" by (simp only: of_int_0_less_iff)
    ultimately have "\<bar>j\<bar> < 2 ^ 53" by linarith
    moreover have "x = of_int j * 2 powi (- 1)"
      using True by (simp add: power_int_minus)
    moreover have "\<bar>x\<bar> < 2 powi 1024"
    proof -
      have "\<bar>x\<bar> < 2 powi 53" by fact
      also have "\<dots> \<le> 2 powi 1024"
        by (intro power_int_increasing) simp_all
      finally show ?thesis .
    qed
    ultimately have "to_double x = Fin x"
      by (intro to_double_exact [of x j "- 1"]) simp_all
    with y have "y = x" by simp
    then show ?thesis by simp
  next
    case False
    define d :: int where "d = 2 * int s - j * int n"
    have "of_int d / (2 * real n) = (2 * real s) / (2 * real n) - (of_int j * real n) / (2 * real n)"
      by (simp add: d_def diff_divide_distrib)
    also have "\<dots> = x - of_int j / 2"
      using n(1) by (simp add: x_def)
    finally have dx: "x - of_int j / 2 = of_int d / (2 * real n)" by simp
    have "d \<noteq> 0"
    proof
      assume "d = 0"
      with dx have "x = of_int j / 2" by simp
      with False show False by simp
    qed
    then have "1 \<le> \<bar>d\<bar>" by linarith
    then have "real_of_int 1 \<le> real_of_int \<bar>d\<bar>" by (simp only: of_int_le_iff)
    then have "1 \<le> \<bar>real_of_int d\<bar>" by simp
    then have "1 / (2 * real n) \<le> \<bar>real_of_int d\<bar> / (2 * real n)"
      using n(1) by (intro divide_right_mono) simp_all
    also have "\<dots> = \<bar>x - of_int j / 2\<bar>"
      using n(1) by (simp add: dx)
    finally have "1 / (2 * real n) \<le> \<bar>x - of_int j / 2\<bar>" .
    with err show ?thesis by linarith
  qed
  from y dec show ?thesis
    unfolding x_def by blast
qed

lemma just_below_80_double: "to_double just_below_80 = Fin just_below_80"
proof -
  have "just_below_80 = of_int (80 * 2 ^ 46 - 1) * 2 powi (- 46)"
    by (simp add: just_below_80_def power_int_minus field_simps)
  moreover have "\<bar>just_below_80\<bar> < 2 powi 1024"
  proof -
    have "\<bar>just_below_80\<bar> < 2 powi 7" by (simp add: just_below_80_def)
    also have "\<dots> \<le> 2 powi 1024" by (intro power_int_increasing) simp_all
    finally show ?thesis .
  qed
  ultimately show ?thesis
    by (intro to_double_exact [of _ "80 * 2 ^ 46 - 1" "- 46"]) simp_all
qed

lemma sum_rounds_up: "to_double (80 + just_below_80) = Fin 160"
proof -
  define x :: real where "x = 80 + just_below_80"
  have x: "x = 160 - 1 / 2 ^ 46" by (simp add: x_def just_below_80_def)
  have e: "expo x = 7"
    by (rule expo_eq) (simp_all add: x)
  have q: "x / 2 powi (7 - 52) = 5629499534213120 - 1 / 2"
    by (simp add: x power_int_minus field_simps)
  have r: "round_even (5629499534213120 - 1 / 2) = 5629499534213120"
    by (simp add: round_even_def Let_def)
  have "to_double x = Fin 160"
    unfolding to_double_def Let_def e q r
    by (simp add: x power_int_minus)
  then show ?thesis by (simp add: x_def)
qed

section \<open>Overall progress\<close>

lemma getProgressStatus_Fin: "getProgressStatus (Fin m) = status_of_mean m"
  by (simp add: getProgressStatus_def status_of_mean_def js_ge_def
      excellent_def good_def fair_def)

lemma nearest_integer_close: "\<bar>real_of_int (nearest_integer x) - x\<bar> \<le> 1 / 2"
  unfolding nearest_integer_def by linarith

lemma whole_percent_cases:
  assumes "whole_percent p"
  obtains k :: nat where "p = Fin (real k)" "k \<le> 100"
proof -
  from assms obtain r where p: "p = Fin r" and r: "r \<in> \<int>" "0 \<le> r" "r \<le> 100"
    by (cases p) auto
  from r(1,2) obtain k :: nat where k: "r = real k"
    by (metis Ints_cases of_int_0_le_iff of_int_of_nat_eq zero_le_imp_eq_int)
  with r(3) have "k \<le> 100" by simp
  with p k that show ?thesis by blast
qed

text \<open>The sum of whole percentages is computed exactly.\<close>

lemma foldl_js_add_whole:
  assumes "\<forall>g \<in> set gs. whole_percent (progress g)" "a + 100 * length gs < 2 ^ 53"
  shows "\<exists>s :: nat. s \<le> 100 * length gs
          \<and> sum_list (map (\<lambda>g. fin_val (progress g)) gs) = real s
          \<and> foldl (\<lambda>sum goal. js_add sum (progress goal)) (Fin (real a)) gs = Fin (real (a + s))"
  using assms
proof (induction gs arbitrary: a)
  case Nil
  show ?case by simp
next
  case (Cons g gs)
  from Cons.prems(1) have "whole_percent (progress g)" by simp
  then obtain k :: nat where k: "progress g = Fin (real k)" "k \<le> 100"
    by (rule whole_percent_cases)
  have "int (a + k) < 2 ^ 53"
    using Cons.prems(2) k(2) by simp
  then have "\<bar>int (a + k)\<bar> < 2 ^ 53" by simp
  from to_double_of_int [OF this]
  have add: "js_add (Fin (real a)) (progress g) = Fin (real (a + k))"
    by (simp add: k(1))
  have "\<forall>g \<in> set gs. whole_percent (progress g)"
    using Cons.prems(1) by simp
  moreover have "(a + k) + 100 * length gs < 2 ^ 53"
    using Cons.prems(2) k(2) by simp
  ultimately obtain s :: nat where s: "s \<le> 100 * length gs"
    "sum_list (map (\<lambda>g. fin_val (progress g)) gs) = real s"
    "foldl (\<lambda>sum goal. js_add sum (progress goal)) (Fin (real (a + k))) gs
       = Fin (real (a + k + s))"
    using Cons.IH [of "a + k"] by blast
  show ?case
  proof (intro exI [of _ "k + s"] conjI)
    show "k + s \<le> 100 * length (g # gs)" using s(1) k(2) by simp
    show "sum_list (map (\<lambda>g. fin_val (progress g)) (g # gs)) = real (k + s)"
      using s(2) k(1) by simp
    show "foldl (\<lambda>sum goal. js_add sum (progress goal)) (Fin (real a)) (g # gs)
            = Fin (real (a + (k + s)))"
      using s(3) add by (simp add: add.assoc)
  qed
qed

text \<open>
  With whole percentages the computed mean \<open>y\<close> and the exact mean \<open>x\<close> lie on the same
  side of every integer and of every half, so they round alike and pass the same thresholds.
\<close>

lemma same_side_round:
  assumes "\<forall>j::int. (of_int j / 2 \<le> (y::real)) = (of_int j / 2 \<le> (x::real))"
  shows "\<lfloor>y + 1 / 2\<rfloor> = \<lfloor>x + 1 / 2\<rfloor>"
proof -
  define k where "k = \<lfloor>x + 1 / 2\<rfloor>"
  have "of_int k \<le> x + 1 / 2" "x + 1 / 2 < of_int k + 1"
    unfolding k_def by linarith+
  then have "of_int (2 * k - 1) / 2 \<le> x" "\<not> of_int (2 * k + 1) / 2 \<le> x"
    by simp_all
  with assms have "of_int (2 * k - 1) / 2 \<le> y" "\<not> of_int (2 * k + 1) / 2 \<le> y"
    by blast+
  then have "of_int k \<le> y + 1 / 2" "y + 1 / 2 < of_int k + 1"
    by simp_all
  then have "\<lfloor>y + 1 / 2\<rfloor> = k" by linarith
  then show ?thesis by (simp add: k_def)
qed

lemma same_side_status:
  assumes "\<forall>j::int. (of_int j / 2 \<le> (y::real)) = (of_int j / 2 \<le> (x::real))"
  shows "status_of_mean y = status_of_mean x"
  using assms [rule_format, of 160] assms [rule_format, of 120] assms [rule_format, of 80]
  by (simp add: status_of_mean_def)

text \<open>
  C8, as stated, fails: the code sums and divides in double arithmetic. For the progress
  values 80 and the double just below 80 the sum rounds to 160, the computed mean is 80
  and the status is \<open>excellent\<close>, while the arithmetic mean is below 80.
\<close>

theorem calculateOverallProgress_counterexample:
  "o_status (calculateOverallProgress close_goals) = ''excellent''
   \<and> arithmetic_mean (active_progress close_goals) < 80
   \<and> status_of_mean (arithmetic_mean (active_progress close_goals)) = ''good''
   \<and> to_double just_below_80 = Fin just_below_80
   \<and> to_double 80 = Fin 80"
proof -
  have d80: "to_double 80 = Fin 80"
    using to_double_of_int [of 80] by simp
  have half: "to_double (160 / 2) = Fin 80"
    using d80 by simp
  have "calculateOverallProgress close_goals =
          \<lparr>averageProgress = Fin 80, activeCount = 2, completedCount = 0,
           o_status = ''excellent''\<rparr>"
    by (simp add: calculateOverallProgress_def close_goals_def goal0_def new_goal_def Let_def
        d80 sum_rounds_up half getProgressStatus_Fin status_of_mean_def)
  moreover have "arithmetic_mean (active_progress close_goals) < 80"
    by (simp add: arithmetic_mean_def active_progress_def close_goals_def goal0_def
        new_goal_def just_below_80_def)
  moreover have "60 \<le> arithmetic_mean (active_progress close_goals)"
    by (simp add: arithmetic_mean_def active_progress_def close_goals_def goal0_def
        new_goal_def just_below_80_def)
  ultimately show ?thesis
    using just_below_80_double d80 by (simp add: status_of_mean_def)
qed

text \<open>
  C8, amended. With no active goal the result is 100 and \<open>all_completed\<close> if some goal is
  completed, 0 and \<open>no_goals\<close> otherwise, with activeCount 0. With an active goal,
  activeCount and completedCount are the numbers of active and completed goals; and when
  the progress of every active goal is a whole number from 0 to 100 (the list having fewer
  than \<open>2 ^ 32\<close> goals, as every array has), averageProgress is the arithmetic mean of the
  active goals' progress rounded to the nearest integer, a tie going up, and the status
  follows the unrounded mean: \<open>excellent\<close> from 80, \<open>good\<close> from 60, \<open>fair\<close> from 40,
  \<open>needs_attention\<close> below.
\<close>

theorem calculateOverallProgress_spec:
  "(filter (\<lambda>g. status g = Active) goals = [] \<longrightarrow>
      calculateOverallProgress goals =
        (if filter (\<lambda>g. status g = Completed) goals \<noteq> []
         then \<lparr>averageProgress = Fin 100, activeCount = 0,
               completedCount = length (filter (\<lambda>g. status g = Completed) goals),
               o_status = ''all_completed''\<rparr>
         else \<lparr>averageProgress = Fin 0, activeCount = 0, completedCount = 0,
               o_status = ''no_goals''\<rparr>))
   \<and> (filter (\<lambda>g. status g = Active) goals \<noteq> [] \<longrightarrow>
        activeCount (calculateOverallProgress goals)
          = length (filter (\<lambda>g. status g = Active) goals)
        \<and> completedCount (calculateOverallProgress goals)
          = length (filter (\<lambda>g. status g = Completed) goals))
   \<and> (filter (\<lambda>g. status g = Active) goals \<noteq> []
        \<and> (\<forall>g \<in> set goals. status g = Active \<longrightarrow> whole_percent (progress g))
        \<and> length goals < 2 ^ 32 \<longrightarrow>
        calculateOverallProgress goals =
          \<lparr>averageProgress =
              Fin (of_int (nearest_integer (arithmetic_mean (active_progress goals)))),
           activeCount = length (filter (\<lambda>g. status g = Active) goals),
           completedCount = length (filter (\<lambda>g. status g = Completed) goals),
           o_status = status_of_mean (arithmetic_mean (active_progress goals))\<rparr>
        \<and> \<bar>real_of_int (nearest_integer (arithmetic_mean (active_progress goals)))
             - arithmetic_mean (active_progress goals)\<bar> \<le> 1 / 2)"
proof -
  let ?act = "filter (\<lambda>g. status g = Active) goals"
  have none: "?act = [] \<Longrightarrow>
      calculateOverallProgress goals =
        (if filter (\<lambda>g. status g = Completed) goals \<noteq> []
         then \<lparr>averageProgress = Fin 100, activeCount = 0,
               completedCount = length (filter (\<lambda>g. status g = Completed) goals),
               o_status = ''all_completed''\<rparr>
         else \<lparr>averageProgress = Fin 0, activeCount = 0, completedCount = 0,
               o_status = ''no_goals''\<rparr>)"
    by (simp add: calculateOverallProgress_def Let_def)
  have counts: "?act \<noteq> [] \<Longrightarrow>
        activeCount (calculateOverallProgress goals) = length ?act
        \<and> completedCount (calculateOverallProgress goals)
          = length (filter (\<lambda>g. status g = Completed) goals)"
    by (simp add: calculateOverallProgress_def Let_def)
  have whole: "calculateOverallProgress goals =
          \<lparr>averageProgress =
              Fin (of_int (nearest_integer (arithmetic_mean (active_progress goals)))),
           activeCount = length ?act,
           completedCount = length (filter (\<lambda>g. status g = Completed) goals),
           o_status = status_of_mean (arithmetic_mean (active_progress goals))\<rparr>"
    if ne: "?act \<noteq> []"
      and wp: "\<forall>g \<in> set goals. status g = Active \<longrightarrow> whole_percent (progress g)"
      and len: "length goals < 2 ^ 32"
  proof -
    have n32: "length ?act < 2 ^ 32"
      using len length_filter_le [of "\<lambda>g. status g = Active" goals] by linarith
    have npos: "0 < length ?act" using ne by simp
    have "0 + 100 * length ?act < 2 ^ 53" using n32 by simp
    moreover have "\<forall>g \<in> set ?act. whole_percent (progress g)" using wp by simp
    ultimately obtain s :: nat where s: "s \<le> 100 * length ?act"
      "sum_list (map (\<lambda>g. fin_val (progress g)) ?act) = real s"
      "foldl (\<lambda>sum goal. js_add sum (progress goal)) (Fin (real 0)) ?act = Fin (real (0 + s))"
      using foldl_js_add_whole [of ?act 0] by blast
    have s52: "s < 2 ^ 52" using s(1) n32 by simp
    from quotient_decides [OF npos n32 s52]
    obtain y where y: "to_double (real s / real (length ?act)) = Fin y"
      and side: "\<forall>j::int. (of_int j / 2 \<le> y) = (of_int j / 2 \<le> real s / real (length ?act))"
      by blast
    have mean: "arithmetic_mean (active_progress goals) = real s / real (length ?act)"
      by (simp add: arithmetic_mean_def active_progress_def s(2))
    have "calculateOverallProgress goals =
            \<lparr>averageProgress = Fin (of_int \<lfloor>y + 1 / 2\<rfloor>), activeCount = length ?act,
             completedCount = length (filter (\<lambda>g. status g = Completed) goals),
             o_status = status_of_mean y\<rparr>"
      using ne s(3) y by (simp add: calculateOverallProgress_def Let_def getProgressStatus_Fin)
    then show ?thesis
      by (simp add: mean nearest_integer_def same_side_round [OF side]
          same_side_status [OF side])
  qed
  from none counts whole nearest_integer_close [of "arithmetic_mean (active_progress goals)"]
  show ?thesis
    by blast
qed

theorem calculateOverallProgress_spec_witness:
  "calculateOverallProgress goals3 =
       \<lparr>averageProgress = Fin 63, activeCount = 2, completedCount = 1, o_status = ''good''\<rparr>
   \<and> calculateOverallProgress [] =
       \<lparr>averageProgress = Fin 0, activeCount = 0, completedCount = 0, o_status = ''no_goals''\<rparr>"
  using calculateOverallProgress_spec [of goals3] calculateOverallProgress_spec [of "[]"]
  by (simp add: goals3_def goal0_def new_goal_def active_progress_def arithmetic_mean_def
      nearest_integer_def status_of_mean_def)

section \<open>Recommendations are ordered by priority\<close>

lemma set_insert_by: "set (insert_by cmp x ys) = insert x (set ys)"
  by (induction ys) auto

lemma sorted_insert_by_priority:
  "sorted_wrt prio_ge ys \<Longrightarrow> sorted_wrt prio_ge (insert_by by_priority x ys)"
  by (induction ys) (auto simp: set_insert_by by_priority_def prio_ge_def)

lemma sorted_array_sort_by_priority: "sorted_wrt prio_ge (array_sort by_priority xs)"
  unfolding array_sort_def
  by (induction xs) (simp_all add: sorted_insert_by_priority)

lemma rank_cases:
  "priority_rank p \<ge> priority_rank q \<Longrightarrow> (q = High \<longrightarrow> p = High) \<and> (p = Low \<longrightarrow> q = Low)"
  by (cases p; cases q) simp_all

text \<open>
  C9. The list generateRecommendations returns is in non-increasing priority: no
  recommendation is followed by one of higher priority, so every \<open>high\<close> one stands
  before every \<open>medium\<close> one, and those before every \<open>low\<close> one.
\<close>

theorem recommendations_sorted:
  "sorted_wrt prio_ge (generateRecommendations goals now)
   \<and> (\<forall>i j. i < j \<and> j < length (generateRecommendations goals now) \<longrightarrow>
        (r_priority (generateRecommendations goals now ! j) = High
           \<longrightarrow> r_priority (generateRecommendations goals now ! i) = High)
      \<and> (r_priority (generateRecommendations goals now ! i) = Low
           \<longrightarrow> r_priority (generateRecommendations goals now ! j) = Low))"
proof -
  let ?rs = "generateRecommendations goals now"
  have s: "sorted_wrt prio_ge ?rs"
    by (simp add: generateRecommendations_def Let_def sorted_array_sort_by_priority)
  have "\<And>i j. i < j \<Longrightarrow> j < length ?rs \<Longrightarrow> prio_ge (?rs ! i) (?rs ! j)"
    using s by (simp add: sorted_wrt_iff_nth_less)
  then show ?thesis
    using s rank_cases unfolding prio_ge_def by blast
qed

theorem recommendations_sorted_witness:
  "map r_priority (generateRecommendations goals6 5000) = [High, Medium, Medium]
   \<and> sorted_wrt prio_ge (generateRecommendations goals6 5000)"
  using recommendations_sorted [of goals6 5000]
  by (simp add: goals6_def goal0_def new_goal_def generateRecommendations_def Let_def
      needs_checkin_def array_sort_def by_priority_def)

section \<open>Brute force protection\<close>

lemma bf_finish_failure:
  assumes "failure st"
  shows "if next_count opts s k now \<ge> maxAttempts opts
         then blocked (bf_finish opts s k now st) k = Some (now + blockDuration opts)
              \<and> attempts (bf_finish opts s k now st) k = None
         else attempts (bf_finish opts s k now st) k
                = Some \<lparr>count = next_count opts s k now, firstAttempt = next_first opts s k now\<rparr>
              \<and> blocked (bf_finish opts s k now st) k = blocked s k"
  using assms
  by (cases "attempts s k")
     (auto simp: failure_def bf_finish_def Let_def next_count_def next_first_def)

lemma bf_finish_success:
  "200 \<le> st \<Longrightarrow> st < 300 \<Longrightarrow> attempts (bf_finish opts s k now st) k = None
     \<and> blocked (bf_finish opts s k now st) = blocked s"
  by (auto simp: bf_finish_def)

lemma bf_request_blocked:
  "blocked s k = Some u \<Longrightarrow> now < u \<Longrightarrow>
     \<exists>body. bf_request s k now = (Some (JsonResponse 429 body), s)"
  by (simp add: bf_request_def)

lemma bf_request_expired:
  "blocked s k = Some u \<Longrightarrow> u \<le> now \<Longrightarrow>
     bf_request s k now = (None, s\<lparr>blocked := (blocked s)(k := None)\<rparr>)"
  by (simp add: bf_request_def)

lemma bf_request_free:
  "blocked s k = None \<Longrightarrow> bf_request s k now = (None, s)"
  by (simp add: bf_request_def)

lemma bf_serve_blocked:
  "blocked s k = Some u \<Longrightarrow> now < u \<Longrightarrow> bf_serve opts s (k, now, st) = ((429, False), s)"
  by (simp add: bf_serve_def bf_request_def)

lemma bf_run_blocked:
  assumes "blocked s k = Some u" "\<forall>ev \<in> set evs. fst ev = k \<and> fst (snd ev) < u"
  shows "bf_run opts s evs = (map (\<lambda>ev. (429, False)) evs, s)"
  using assms
proof (induction evs)
  case Nil
  show ?case by simp
next
  case (Cons ev evs)
  obtain k' t st where ev: "ev = (k', t, st)" by (cases ev) auto
  with Cons.prems have "k' = k" "t < u" by auto
  with Cons ev show ?case
    by (simp add: bf_serve_blocked)
qed

lemma bf_run_failures:
  assumes "blocked s k = None"
    and "attempts s k = Some \<lparr>count = c, firstAttempt = t0\<rparr>"
    and "\<forall>ev \<in> set evs. fst ev = k \<and> failure (snd (snd ev)) \<and> fst (snd ev) - t0 \<le> windowMs opts"
    and "c + int (length evs) = maxAttempts opts"
    and "evs \<noteq> []"
  shows "fst (bf_run opts s evs) = map (\<lambda>ev. (snd (snd ev), True)) evs
       \<and> blocked (snd (bf_run opts s evs)) k = Some (fst (snd (last evs)) + blockDuration opts)
       \<and> attempts (snd (bf_run opts s evs)) k = None"
  using assms
proof (induction evs arbitrary: s c)
  case Nil
  then show ?case by simp
next
  case (Cons ev evs)
  obtain k' t st where ev: "ev = (k', t, st)" by (cases ev) auto
  with Cons.prems have k: "k' = k" and f: "failure st" and w: "t - t0 \<le> windowMs opts"
    by auto
  let ?s' = "bf_finish opts s k t st"
  have serve: "bf_serve opts s ev = ((st, True), ?s')"
    using Cons.prems(1) by (simp add: bf_serve_def ev k bf_request_free)
  have nc: "next_count opts s k t = c + 1" and nf: "next_first opts s k t = t0"
    using Cons.prems(2) w by (simp_all add: next_count_def next_first_def)
  show ?case
  proof (cases "evs = []")
    case True
    with Cons.prems(4) nc have "next_count opts s k t \<ge> maxAttempts opts" by simp
    with bf_finish_failure [OF f, of opts s k t] True serve ev show ?thesis
      by simp
  next
    case False
    then have "int (length evs) \<ge> 1" by (cases evs) simp_all
    moreover have "c + (1 + int (length evs)) = maxAttempts opts"
      using Cons.prems(4) by simp
    ultimately have "\<not> next_count opts s k t \<ge> maxAttempts opts"
      using nc by linarith
    with bf_finish_failure [OF f, of opts s k t] nc nf Cons.prems(1)
    have a: "attempts ?s' k = Some \<lparr>count = c + 1, firstAttempt = t0\<rparr>"
      and b: "blocked ?s' k = None"
      by simp_all
    have "\<forall>ev \<in> set evs. fst ev = k \<and> failure (snd (snd ev)) \<and> fst (snd ev) - t0 \<le> windowMs opts"
      using Cons.prems(3) by simp
    moreover have "c + 1 + int (length evs) = maxAttempts opts"
      using Cons.prems(4) by simp
    ultimately have IH: "fst (bf_run opts ?s' evs) = map (\<lambda>ev. (snd (snd ev), True)) evs
       \<and> blocked (snd (bf_run opts ?s' evs)) k = Some (fst (snd (last evs)) + blockDuration opts)
       \<and> attempts (snd (bf_run opts ?s' evs)) k = None"
      using Cons.IH [OF b a] False by blast
    with serve False ev show ?thesis
      by (simp add: split_beta)
  qed
qed

lemma bf_run_clean_failures:
  assumes b: "blocked s k = None"
    and a: "attempts s k = None"
    and evs: "evs \<noteq> []"
    and all: "\<forall>ev \<in> set evs. fst ev = k \<and> failure (snd (snd ev))
               \<and> fst (snd ev) - fst (snd (hd evs)) \<le> windowMs opts"
    and len: "int (length evs) = maxAttempts opts"
  shows "fst (bf_run opts s evs) = map (\<lambda>ev. (snd (snd ev), True)) evs
       \<and> blocked (snd (bf_run opts s evs)) k = Some (fst (snd (last evs)) + blockDuration opts)
       \<and> attempts (snd (bf_run opts s evs)) k = None"
proof -
  from evs obtain ev rest where e: "evs = ev # rest" by (cases evs) auto
  obtain k' t st where ev: "ev = (k', t, st)" by (cases ev) auto
  from all e ev have k: "k' = k" and f: "failure st" by auto
  let ?s' = "bf_finish opts s k t st"
  have serve: "bf_serve opts s ev = ((st, True), ?s')"
    using b by (simp add: bf_serve_def ev k bf_request_free)
  have nc: "next_count opts s k t = 1" and nf: "next_first opts s k t = t"
    using a by (simp_all add: next_count_def next_first_def)
  show ?thesis
  proof (cases "rest = []")
    case True
    with len e nc have "next_count opts s k t \<ge> maxAttempts opts" by simp
    with bf_finish_failure [OF f, of opts s k t] True serve e ev show ?thesis
      by simp
  next
    case False
    then have "int (length rest) \<ge> 1" by (cases rest) simp_all
    moreover have l: "1 + int (length rest) = maxAttempts opts"
      using len e by simp
    ultimately have "\<not> next_count opts s k t \<ge> maxAttempts opts"
      using nc by linarith
    with bf_finish_failure [OF f, of opts s k t] nc nf b
    have a': "attempts ?s' k = Some \<lparr>count = 1, firstAttempt = t\<rparr>"
      and b': "blocked ?s' k = None"
      by simp_all
    have "\<forall>ev \<in> set rest. fst ev = k \<and> failure (snd (snd ev)) \<and> fst (snd ev) - t \<le> windowMs opts"
      using all e ev by simp
    from bf_run_failures [OF b' a' this l False] serve False e ev show ?thesis
      by (simp add: split_beta)
  qed
qed

subsection \<open>Requests of other keys\<close>

lemma bf_serve_other:
  assumes "fst ev \<noteq> k"
  shows "attempts (snd (bf_serve opts s ev)) k = attempts s k
       \<and> blocked (snd (bf_serve opts s ev)) k = blocked s k"
proof -
  obtain k' t st where ev: "ev = (k', t, st)" by (cases ev) auto
  with assms have "k' \<noteq> k" by simp
  then show ?thesis
    by (auto simp: ev bf_serve_def bf_request_def bf_finish_def Let_def split: option.splits)
qed

lemma bf_serve_same:
  assumes "attempts s k = attempts s' k" "blocked s k = blocked s' k"
  shows "fst (bf_serve opts s (k, t, st)) = fst (bf_serve opts s' (k, t, st))
       \<and> attempts (snd (bf_serve opts s (k, t, st))) k = attempts (snd (bf_serve opts s' (k, t, st))) k
       \<and> blocked (snd (bf_serve opts s (k, t, st))) k = blocked (snd (bf_serve opts s' (k, t, st))) k"
  using assms
  by (auto simp: bf_serve_def bf_request_def bf_finish_def Let_def split: option.splits)

lemma bf_run_for_key:
  assumes "attempts s k = attempts s' k" "blocked s k = blocked s' k"
  shows "responses_for k evs (fst (bf_run opts s evs)) = fst (bf_run opts s' (for_key k evs))
       \<and> attempts (snd (bf_run opts s evs)) k = attempts (snd (bf_run opts s' (for_key k evs))) k
       \<and> blocked (snd (bf_run opts s evs)) k = blocked (snd (bf_run opts s' (for_key k evs))) k"
  using assms
proof (induction evs arbitrary: s s')
  case Nil
  then show ?case by (simp add: responses_for_def for_key_def)
next
  case (Cons ev evs)
  show ?case
  proof (cases "fst ev = k")
    case False
    from bf_serve_other [OF False, of opts s] Cons.prems
    have "attempts (snd (bf_serve opts s ev)) k = attempts s' k"
      "blocked (snd (bf_serve opts s ev)) k = blocked s' k"
      by simp_all
    from Cons.IH [OF this] False show ?thesis
      by (simp add: responses_for_def for_key_def split_beta)
  next
    case True
    then obtain t st where ev: "ev = (k, t, st)" by (cases ev) auto
    from bf_serve_same [OF Cons.prems, of opts t st]
    have r: "fst (bf_serve opts s ev) = fst (bf_serve opts s' ev)"
      and "attempts (snd (bf_serve opts s ev)) k = attempts (snd (bf_serve opts s' ev)) k"
      and "blocked (snd (bf_serve opts s ev)) k = blocked (snd (bf_serve opts s' ev)) k"
      by (simp_all add: ev)
    from Cons.IH [OF this(2,3)] r True show ?thesis
      by (simp add: responses_for_def for_key_def split_beta)
  qed
qed

text \<open>
  C10, as stated, fails: five responses with status 401 within seven minutes, far less than
  windowMs, leave the key unblocked, because the first failure at minute 0 opened a
  window that ran out at minute 15 and the failure at minute 16 restarted the count.
\<close>

theorem brute_force_counterexample:
  "fst (bf_run default_options bf_init six_failures) =
      [(401, True), (401, True), (401, True), (401, True), (401, True), (401, True)]
   \<and> blocked (snd (bf_run default_options bf_init six_failures)) key1 = None
   \<and> drop 1 six_failures =
       [(key1, 600000, 401), (key1, 660000, 401), (key1, 720000, 401), (key1, 960000, 401),
        (key1, 1020000, 401)]
   \<and> 1020000 - 600000 \<le> windowMs default_options
   \<and> maxAttempts default_options = 5"
  by (simp add: six_failures_def default_options_def bf_init_def bf_serve_def bf_request_def
      bf_finish_def Let_def)

text \<open>
  C10, amended. Requests being served one after another, among requests of any keys:
  \<^item> a 401 or 403 response counts 1 if the key has no recorded attempts or its request
    arrived more than windowMs after the first recorded attempt (which it then replaces),
    and one more than the recorded count otherwise; when the count reaches maxAttempts the
    key is blocked until the arrival time of that request plus blockDuration and its
    attempts are forgotten;
  \<^item> so maxAttempts requests of a key with no recorded attempts and no block, all
    answered 401 or 403 and all arriving within windowMs of the first, block the key;
  \<^item> while a key is blocked, each of its requests arriving before the end of the block
    is answered 429 without reaching the wrapped handler, and block and attempts stay
    (for a run of requests, and for the middleware alone in any state);
  \<^item> the first request arriving at or after the end removes the block and is passed on;
  \<^item> a response with a 2xx status forgets the key's attempts.
\<close>

theorem brute_force_protection:
  "(failure st \<longrightarrow>
      (if next_count opts s k now \<ge> maxAttempts opts
       then blocked (bf_finish opts s k now st) k = Some (now + blockDuration opts)
            \<and> attempts (bf_finish opts s k now st) k = None
       else attempts (bf_finish opts s k now st) k
              = Some \<lparr>count = next_count opts s k now, firstAttempt = next_first opts s k now\<rparr>
            \<and> blocked (bf_finish opts s k now st) k = blocked s k))
   \<and> (blocked s k = None \<and> attempts s k = None \<and> for_key k evs \<noteq> []
        \<and> int (length (for_key k evs)) = maxAttempts opts
        \<and> (\<forall>ev \<in> set (for_key k evs). failure (ev_status ev)
              \<and> ev_time ev - ev_time (hd (for_key k evs)) \<le> windowMs opts) \<longrightarrow>
        responses_for k evs (fst (bf_run opts s evs))
          = map (\<lambda>ev. (ev_status ev, True)) (for_key k evs)
        \<and> blocked (snd (bf_run opts s evs)) k
            = Some (ev_time (last (for_key k evs)) + blockDuration opts)
        \<and> attempts (snd (bf_run opts s evs)) k = None)
   \<and> (blocked s k = Some u \<and> (\<forall>ev \<in> set (for_key k evs'). ev_time ev < u) \<longrightarrow>
        responses_for k evs' (fst (bf_run opts s evs'))
          = map (\<lambda>ev. (429, False)) (for_key k evs')
        \<and> blocked (snd (bf_run opts s evs')) k = Some u
        \<and> attempts (snd (bf_run opts s evs')) k = attempts s k)
   \<and> (blocked s k = Some u \<and> now < u \<longrightarrow>
        (\<exists>body. bf_request s k now = (Some (JsonResponse 429 body), s)))
   \<and> (blocked s k = Some u \<and> u \<le> now \<longrightarrow>
        bf_request s k now = (None, s\<lparr>blocked := (blocked s)(k := None)\<rparr>))
   \<and> (200 \<le> st' \<and> st' < 300 \<longrightarrow> attempts (bf_finish opts s k now st') k = None)"
proof -
  have key: "\<forall>ev \<in> set (for_key k es). fst ev = k" for es
    by (simp add: for_key_def)
  have p2: "responses_for k evs (fst (bf_run opts s evs))
          = map (\<lambda>ev. (ev_status ev, True)) (for_key k evs)
        \<and> blocked (snd (bf_run opts s evs)) k
            = Some (ev_time (last (for_key k evs)) + blockDuration opts)
        \<and> attempts (snd (bf_run opts s evs)) k = None"
    if h: "blocked s k = None" "attempts s k = None" "for_key k evs \<noteq> []"
      "int (length (for_key k evs)) = maxAttempts opts"
      "\<forall>ev \<in> set (for_key k evs). failure (ev_status ev)
              \<and> ev_time ev - ev_time (hd (for_key k evs)) \<le> windowMs opts"
  proof -
    have "\<forall>ev \<in> set (for_key k evs). fst ev = k \<and> failure (ev_status ev)
              \<and> ev_time ev - ev_time (hd (for_key k evs)) \<le> windowMs opts"
      using h(5) key by blast
    from bf_run_clean_failures [OF h(1) h(2) h(3) this h(4)]
      bf_run_for_key [of s k s evs opts]
    show ?thesis by simp
  qed
  have p3: "responses_for k evs' (fst (bf_run opts s evs'))
          = map (\<lambda>ev. (429, False)) (for_key k evs')
        \<and> blocked (snd (bf_run opts s evs')) k = Some u
        \<and> attempts (snd (bf_run opts s evs')) k = attempts s k"
    if h: "blocked s k = Some u" "\<forall>ev \<in> set (for_key k evs'). ev_time ev < u"
  proof -
    have "\<forall>ev \<in> set (for_key k evs'). fst ev = k \<and> ev_time ev < u"
      using h(2) key by blast
    from bf_run_blocked [OF h(1) this, of opts] bf_run_for_key [of s k s evs' opts] h(1)
    show ?thesis by simp
  qed
  from p2 p3 bf_finish_failure [of st opts s k now] bf_finish_success [of st' opts s k now]
    bf_request_expired [of s k u now] bf_request_blocked [of s k u now]
  show ?thesis by blast
qed

lemma blocked_state_key1: "blocked blocked_state key1 = Some 1804000"
  by (simp add: blocked_state_def five_failures_def default_options_def bf_init_def bf_serve_def
      bf_request_def bf_finish_def Let_def)

theorem brute_force_protection_witness:
  "responses_for key1 five_failures (fst (bf_run default_options bf_init five_failures))
      = [(401, True), (403, True), (401, True), (401, True), (401, True)]
   \<and> blocked (snd (bf_run default_options bf_init five_failures)) key1 = Some 1804000
   \<and> responses_for key1 while_blocked (fst (bf_run default_options blocked_state while_blocked))
      = [(429, False), (429, False)]
   \<and> blocked (snd (bf_run default_options blocked_state while_blocked)) key1 = Some 1804000
   \<and> bf_request blocked_state key1 1804000
      = (None, blocked_state\<lparr>blocked := (blocked blocked_state)(key1 := None)\<rparr>)
   \<and> attempts (bf_finish default_options bf_init key1 7 401) key1
      = Some \<lparr>count = 1, firstAttempt = 7\<rparr>
   \<and> attempts (bf_finish default_options bf_init key1 7 200) key1 = None"
proof -
  have k: "key1 \<noteq> ''10.0.0.2:unknown''"
    by (simp add: key1_def bf_key_def or_string_def)
  have f: "for_key key1 five_failures = five_failures"
    by (simp add: for_key_def five_failures_def)
  have w: "for_key key1 while_blocked = [(key1, 5000, 200), (key1, 1803999, 401)]"
    using k by (simp add: for_key_def while_blocked_def)
  from brute_force_protection
    [of 401 default_options bf_init key1 7 five_failures _ "[]" 200]
  have a: "responses_for key1 five_failures (fst (bf_run default_options bf_init five_failures))
      = [(401, True), (403, True), (401, True), (401, True), (401, True)]
   \<and> blocked (snd (bf_run default_options bf_init five_failures)) key1 = Some 1804000
   \<and> attempts (bf_finish default_options bf_init key1 7 401) key1
      = Some \<lparr>count = 1, firstAttempt = 7\<rparr>
   \<and> attempts (bf_finish default_options bf_init key1 7 200) key1 = None"
    unfolding f
    by (simp add: five_failures_def failure_def default_options_def bf_init_def
        next_count_def next_first_def)
  from brute_force_protection
    [of 401 default_options blocked_state key1 1804000 "[]" 1804000 while_blocked 200]
  have b: "responses_for key1 while_blocked (fst (bf_run default_options blocked_state while_blocked))
      = [(429, False), (429, False)]
   \<and> blocked (snd (bf_run default_options blocked_state while_blocked)) key1 = Some 1804000
   \<and> bf_request blocked_state key1 1804000
      = (None, blocked_state\<lparr>blocked := (blocked blocked_state)(key1 := None)\<rparr>)"
    unfolding w
    by (simp add: blocked_state_key1)
  from a b show ?thesis by simp
qed

section \<open>The global error handler\<close>

lemma AppError_fields [simp]:
  "name (AppError m c) = None" "message (AppError m c) = m"
  "statusCode (AppError m c) = Some c" "isOperational (AppError m c)"
  "code (AppError m c) = NoCode" "e_type (AppError m c) = None"
  "response (AppError m c) = None" "keyValue (AppError m c) = None"
  "errors (AppError m c) = None" "retryAfter (AppError m c) = None"
  by (simp_all add: AppError_def)

lemma with_defaults_fields [simp]:
  "name (with_defaults e) = name e" "message (with_defaults e) = message e"
  "isOperational (with_defaults e) = isOperational e" "code (with_defaults e) = code e"
  "e_type (with_defaults e) = e_type e" "response (with_defaults e) = response e"
  "keyValue (with_defaults e) = keyValue e" "errors (with_defaults e) = errors e"
  "retryAfter (with_defaults e) = retryAfter e"
  by (simp_all add: with_defaults_def)

lemma statusCode_with_defaults [simp]:
  "statusCode (with_defaults e) = Some (effective_status e)"
  by (simp add: with_defaults_def effective_status_def split: option.splits)

lemma untranslated_with_defaults [simp]: "untranslated (with_defaults e) = untranslated e"
  by (simp add: untranslated_def)

lemma translation_fails_with_defaults [simp]:
  "translation_fails (with_defaults e) = translation_fails e"
  by (simp add: translation_fails_def)

lemma untranslated_not_fails: "untranslated e \<Longrightarrow> \<not> translation_fails e"
  by (simp add: untranslated_def translation_fails_def)

lemma translate_untranslated: "untranslated e \<Longrightarrow> translate e = Inr e"
  by (auto simp: untranslated_def translate_def Let_def split: option.splits)

lemma AppError_translated [simp]:
  "c \<in> translated_codes \<Longrightarrow> is_translation (AppError m c)"
  unfolding is_translation_def by blast

lemma handleOpenAIError_cases: "is_translation (handleOpenAIError e)"
  by (simp add: handleOpenAIError_def translated_codes_def split: option.splits)

lemma translate_translated:
  assumes "translate e = Inr e'" "\<not> untranslated e"
  shows "is_translation e'"
proof -
  have c4: "(400::nat) \<in> translated_codes" and c1: "(401::nat) \<in> translated_codes"
    and c9: "(429::nat) \<in> translated_codes" and c3: "(503::nat) \<in> translated_codes"
    by (simp_all add: translated_codes_def)
  consider (cast) "name e = Some ''CastError''"
    | (dup) "name e \<noteq> Some ''CastError''" "code e = NumCode 11000"
    | (val) "name e \<noteq> Some ''CastError''" "code e \<noteq> NumCode 11000"
        "name e = Some ''ValidationError''"
    | (other) "name e \<noteq> Some ''CastError''" "code e \<noteq> NumCode 11000"
        "name e \<noteq> Some ''ValidationError''"
    by blast
  then show ?thesis
  proof cases
    case cast
    with assms(1) c4 show ?thesis
      by (auto simp: translate_def Let_def handleCastErrorDB_def)
  next
    case dup
    with assms(1) c4 show ?thesis
      by (auto simp: translate_def Let_def handleDuplicateFieldsDB_def split: option.splits)
  next
    case val
    with assms(1) c4 show ?thesis
      by (auto simp: translate_def Let_def handleValidationErrorDB_def split: option.splits)
  next
    case other
    consider (jwt) "name e = Some ''JsonWebTokenError''"
      | (exp) "name e = Some ''TokenExpiredError''"
      | (net) "name e = Some ''MongoNetworkError'' \<or> name e = Some ''MongoTimeoutError''"
      | (rate) "name e \<noteq> Some ''JsonWebTokenError''" "name e \<noteq> Some ''TokenExpiredError''"
          "name e \<noteq> Some ''MongoNetworkError''" "name e \<noteq> Some ''MongoTimeoutError''"
          "e_type e = Some ''RateLimitError''"
      | (ai) "name e \<noteq> Some ''JsonWebTokenError''" "name e \<noteq> Some ''TokenExpiredError''"
          "name e \<noteq> Some ''MongoNetworkError''" "name e \<noteq> Some ''MongoTimeoutError''"
          "e_type e \<noteq> Some ''RateLimitError''"
          "\<exists>st. response e = Some (Some st) \<and> st \<noteq> 0"
      using assms(2) other
      by (auto simp: untranslated_def split: option.splits)
    then show ?thesis
    proof cases
      case jwt
      with assms(1) other c1 show ?thesis
        by (auto simp: translate_def Let_def handleJWTError_def)
    next
      case exp
      with assms(1) other c1 show ?thesis
        by (auto simp: translate_def Let_def handleJWTExpiredError_def)
    next
      case net
      with assms(1) other c3 show ?thesis
        by (auto simp: translate_def Let_def handleDBConnectionError_def logger_error_def)
    next
      case rate
      with assms(1) other c9 show ?thesis
        by (auto simp: translate_def Let_def handleRateLimitError_def)
    next
      case ai
      with assms(1) other handleOpenAIError_cases [of e] show ?thesis
        by (auto simp: translate_def Let_def)
    qed
  qed
qed

lemma operational_body_get:
  "js_get (operational_body e) ''success'' = JBool False"
  "js_get (operational_body e) ''error'' = JStr (message e)"
  by (simp_all add: operational_body_def)

lemma sendErrorProd_api:
  assumes "api_url req"
  shows "sendErrorProd e req =
     (if isOperational e
      then (case statusCode e of
              None \<Rightarrow> Inl ''ERR_HTTP_INVALID_STATUS_CODE''
            | Some c \<Rightarrow> Inr (JsonResponse c (operational_body e)))
      else Inl ''TypeError'')"
  using assms
  by (simp add: sendErrorProd_def res_status_def operational_body_def logger_error_def
      split: option.splits)

lemma translate_fails: "translation_fails e \<Longrightarrow> translate e = Inl ''TypeError''"
  by (auto simp: translation_fails_def translate_def Let_def handleDuplicateFieldsDB_def
      handleValidationErrorDB_def handleDBConnectionError_def logger_error_def
      split: if_splits)

lemma translate_returns:
  assumes "\<not> translation_fails e"
  shows "\<exists>e'. translate e = Inr e'"
proof -
  consider (cast) "name e = Some ''CastError''"
    | (dup) "name e \<noteq> Some ''CastError''" "code e = NumCode 11000" "keyValue e \<noteq> None"
    | (val) "name e \<noteq> Some ''CastError''" "code e \<noteq> NumCode 11000"
        "name e = Some ''ValidationError''" "errors e \<noteq> None"
    | (other) "name e \<noteq> Some ''CastError''" "code e \<noteq> NumCode 11000"
        "name e \<noteq> Some ''ValidationError''" "name e \<noteq> Some ''MongoNetworkError''"
        "name e \<noteq> Some ''MongoTimeoutError''"
    using assms by (auto simp: translation_fails_def split: if_splits)
  then show ?thesis
  proof cases
    case cast
    then show ?thesis
      by (simp add: translate_def Let_def handleCastErrorDB_def)
  next
    case dup
    then show ?thesis
      by (auto simp: translate_def Let_def handleDuplicateFieldsDB_def)
  next
    case val
    then show ?thesis
      by (auto simp: translate_def Let_def handleValidationErrorDB_def)
  next
    case other
    then show ?thesis
      by (simp add: translate_def Let_def handleJWTError_def handleJWTExpiredError_def)
  qed
qed

lemma globalErrorHandler_prod:
  "node_env \<noteq> Some ''development'' \<Longrightarrow>
     globalErrorHandler node_env err req =
       (case translate (with_defaults err) of
          Inl thrown \<Rightarrow> Inl thrown
        | Inr error \<Rightarrow> sendErrorProd error req)"
  by (simp add: globalErrorHandler_def Let_def)

lemma is_translation_fields:
  assumes "is_translation e"
  shows "isOperational e" "\<exists>c. statusCode e = Some c \<and> c \<in> translated_codes"
  using assms by (auto simp: is_translation_def)

text \<open>
  What the handler does in production with an error that is not operational and that no
  translator replaces: the call of \<open>logger.error\<close> throws before the response with
  status 500 and the generic message is sent.
\<close>

lemma not_operational_throws:
  assumes "node_env \<noteq> Some ''development''" "untranslated err" "\<not> isOperational err"
  shows "globalErrorHandler node_env err req = Inl ''TypeError''"
  using assms
  by (simp add: globalErrorHandler_def Let_def translate_untranslated sendErrorProd_def
      logger_error_def)

lemma handleAPIError_throws: "handleAPIError error = Inl ''TypeError''"
  by (simp add: handleAPIError_def Let_def logger_error_def)

lemma type_error_throws:
  "globalErrorHandler (Some ''production'') type_error api_request = Inl ''TypeError''"
  by (rule not_operational_throws) (simp_all add: untranslated_def type_error_def)

lemma translate_statusCode:
  assumes "translate (with_defaults err) = Inr e"
  shows "\<exists>c. statusCode e = Some c"
proof (cases "untranslated err")
  case True
  with assms have "e = with_defaults err" by (simp add: translate_untranslated)
  then show ?thesis by simp
next
  case False
  with translate_translated [OF assms] is_translation_fields(2) [of e] show ?thesis
    by auto
qed

text \<open>
  C4, as stated, fails: a JsonWebTokenError is not operational when it reaches the
  handler, and the production response is 401 with the translator's message, not 500.
\<close>

theorem production_error_response_counterexample:
  "globalErrorHandler (Some ''production'') jwt_error api_request =
     Inr (JsonResponse 401
       (JObj [(''success'', JBool False), (''error'', JStr ''Invalid token. Please log in again.'')]))
   \<and> \<not> isOperational jwt_error
   \<and> api_url api_request"
  by (simp add: globalErrorHandler_def translate_def Let_def jwt_error_def api_request_def
      api_url_def with_defaults_def handleJWTError_def sendErrorProd_def res_status_def AppError_def)

text \<open>
  C4, amended. In production mode (NODE_ENV other than \<open>development\<close>), for a request
  whose URL starts with \<open>/api\<close>: an operational error that none of the handler's tests
  matches is answered with its status code (500 when it has none) and a body whose
  \<open>error\<close> is its message. In general the chain of translators returns an error unless
  it throws (on a duplicate-key error without \<open>keyValue\<close>, a ValidationError without
  \<open>errors\<close>, a MongoNetworkError or MongoTimeoutError); the error it returns is the
  incoming one when no test matches and an operational error with status 400, 401, 429,
  500 or 503 otherwise, and when that error is operational the response has its status
  code and a body whose \<open>error\<close> is its message.
\<close>

theorem production_error_response:
  assumes "node_env \<noteq> Some ''development''" and "api_url req"
  shows "(untranslated err \<and> isOperational err \<longrightarrow>
            globalErrorHandler node_env err req =
              Inr (JsonResponse (effective_status err) (operational_body (with_defaults err)))
            \<and> js_get (operational_body (with_defaults err)) ''error'' = JStr (message err))
       \<and> (\<not> translation_fails err \<longrightarrow>
            (\<exists>e. translate (with_defaults err) = Inr e
               \<and> (untranslated err \<longrightarrow> e = with_defaults err)
               \<and> (\<not> untranslated err \<longrightarrow>
                    isOperational e \<and> (\<exists>c \<in> translated_codes. statusCode e = Some c))
               \<and> (isOperational e \<longrightarrow>
                    (\<exists>c. statusCode e = Some c
                       \<and> globalErrorHandler node_env err req
                           = Inr (JsonResponse c (operational_body e))
                       \<and> js_get (operational_body e) ''error'' = JStr (message e)))))"
proof -
  have gen: "\<exists>e. translate (with_defaults err) = Inr e
               \<and> (untranslated err \<longrightarrow> e = with_defaults err)
               \<and> (\<not> untranslated err \<longrightarrow>
                    isOperational e \<and> (\<exists>c \<in> translated_codes. statusCode e = Some c))
               \<and> (isOperational e \<longrightarrow>
                    (\<exists>c. statusCode e = Some c
                       \<and> globalErrorHandler node_env err req
                           = Inr (JsonResponse c (operational_body e))
                       \<and> js_get (operational_body e) ''error'' = JStr (message e)))"
    if nf: "\<not> translation_fails err"
  proof -
    from nf translate_returns [of "with_defaults err"]
    obtain e where t: "translate (with_defaults err) = Inr e" by auto
    from translate_statusCode [OF t] obtain c where c: "statusCode e = Some c" by blast
    have h: "globalErrorHandler node_env err req = sendErrorProd e req"
      using assms(1) t by (simp add: globalErrorHandler_prod)
    have u: "untranslated err \<longrightarrow> e = with_defaults err"
      using t by (auto simp: translate_untranslated)
    have op: "\<not> untranslated err \<longrightarrow>
                isOperational e \<and> (\<exists>c \<in> translated_codes. statusCode e = Some c)"
      using translate_translated [OF t] is_translation_fields [of e] by auto
    have r: "isOperational e \<longrightarrow>
               (\<exists>c. statusCode e = Some c
                  \<and> globalErrorHandler node_env err req = Inr (JsonResponse c (operational_body e))
                  \<and> js_get (operational_body e) ''error'' = JStr (message e))"
      using h c by (simp add: sendErrorProd_api [OF assms(2)] operational_body_get)
    from t u op r show ?thesis by blast
  qed
  have plain: "globalErrorHandler node_env err req =
              Inr (JsonResponse (effective_status err) (operational_body (with_defaults err)))
            \<and> js_get (operational_body (with_defaults err)) ''error'' = JStr (message err)"
    if "untranslated err" "isOperational err"
    using that assms
    by (simp add: globalErrorHandler_prod translate_untranslated sendErrorProd_api
        operational_body_get)
  from gen plain show ?thesis
    by blast
qed

theorem production_error_response_witness:
  "globalErrorHandler (Some ''production'') (AppError ''Goal not found'' 404) api_request =
     Inr (JsonResponse 404
       (JObj [(''success'', JBool False), (''error'', JStr ''Goal not found'')]))
   \<and> globalErrorHandler (Some ''production'') expired_error api_request =
     Inr (JsonResponse 401
       (JObj [(''success'', JBool False),
              (''error'', JStr ''Your token has expired. Please log in again.'')]))"
proof -
  have env: "Some ''production'' \<noteq> Some ''development''" by simp
  have url: "api_url api_request" by (simp add: api_url_def api_request_def)
  have u1: "untranslated (AppError ''Goal not found'' 404)"
    by (simp add: untranslated_def)
  have f2: "\<not> translation_fails expired_error"
    by (simp add: translation_fails_def expired_error_def)
  have t2: "translate (with_defaults expired_error)
            = Inr (AppError ''Your token has expired. Please log in again.'' 401)"
    by (simp add: translate_def Let_def handleJWTExpiredError_def expired_error_def
        with_defaults_def)
  from production_error_response [OF env url, of "AppError ''Goal not found'' 404"] u1
  have a: "globalErrorHandler (Some ''production'') (AppError ''Goal not found'' 404) api_request =
     Inr (JsonResponse 404
       (JObj [(''success'', JBool False), (''error'', JStr ''Goal not found'')]))"
    by (simp add: effective_status_def operational_body_def with_defaults_def AppError_def)
  from production_error_response [OF env url, of expired_error] f2 t2
  have b: "globalErrorHandler (Some ''production'') expired_error api_request =
     Inr (JsonResponse 401
       (JObj [(''success'', JBool False),
              (''error'', JStr ''Your token has expired. Please log in again.'')]))"
    by (auto simp: operational_body_def)
  from a b show ?thesis by simp
qed





subsection \<open>Responses of the middleware\<close>










section \<open>Messages and feedback\<close>

lemma same_but_feedback_refl [simp]: "same_but_feedback m m"
  by (simp add: same_but_feedback_def)

lemma strict_set_fields:
  "m_id (strict_set sets m) = m_id m" "m_userId (strict_set sets m) = m_userId m"
  "conversationId (strict_set sets m) = conversationId m" "m_type (strict_set sets m) = m_type m"
  "content (strict_set sets m) = content m" "embedding (strict_set sets m) = embedding m"
  "createdAt (strict_set sets m) = createdAt m" "updatedAt (strict_set sets m) = updatedAt m"
  by (simp_all add: strict_set_def)

lemma strict_fold_other:
  "\<forall>kv \<in> set sets. fst kv \<noteq> k \<Longrightarrow>
     foldl (\<lambda>md kv. if fst kv \<in> set metadata_schema then md(fst kv \<mapsto> snd kv) else md) md0 sets k
       = md0 k"
  by (induction sets arbitrary: md0) auto

lemma strict_fold_undeclared:
  "\<forall>kv \<in> set sets. fst kv \<notin> set metadata_schema \<Longrightarrow>
     foldl (\<lambda>md kv. if fst kv \<in> set metadata_schema then md(fst kv \<mapsto> snd kv) else md) md0 sets
       = md0"
  by (induction sets arbitrary: md0) auto

lemma same_but_feedback_update:
  "same_but_feedback m (mongoose_update (feedback_update r f now) t m)"
proof -
  have "\<forall>kv \<in> set (feedback_update r f now). fst kv \<noteq> k" if "k \<notin> feedback_fields" for k
    using that by (auto simp: feedback_update_def feedback_fields_def)
  then show ?thesis
    by (simp add: same_but_feedback_def mongoose_update_def strict_set_fields)
       (simp add: strict_set_def strict_fold_other)
qed

text \<open>
  None of the three paths of the feedback update is declared by the schema, so the update
  leaves the metadata as it was and sets \<open>updatedAt\<close> only.
\<close>

lemma mongoose_update_feedback:
  "mongoose_update (feedback_update r f now) t m = m\<lparr>updatedAt := t\<rparr>"
proof -
  have "\<forall>kv \<in> set (feedback_update r f now). fst kv \<notin> set metadata_schema"
    by (simp add: feedback_update_def metadata_schema_def)
  then show ?thesis
    by (simp add: mongoose_update_def strict_set_def strict_fold_undeclared)
qed

lemma findOneAndUpdate_length:
  "length (snd (findOneAndUpdate flt upd ms)) = length ms"
  by (induction ms) (auto split: prod.splits)

lemma findOneAndUpdate_nth:
  assumes "\<And>m. same_but_feedback m (upd m)" "i < length ms"
  shows "same_but_feedback (ms ! i) (snd (findOneAndUpdate flt upd ms) ! i)
       \<and> (snd (findOneAndUpdate flt upd ms) ! i \<noteq> ms ! i \<longrightarrow>
            flt (ms ! i) \<and> snd (findOneAndUpdate flt upd ms) ! i = upd (ms ! i)
            \<and> (\<forall>j < i. \<not> flt (ms ! j)))"
  using assms(2)
proof (induction ms arbitrary: i)
  case Nil
  then show ?case by simp
next
  case (Cons m ms)
  show ?case
  proof (cases "flt m")
    case True
    then show ?thesis
      using assms(1) by (cases i) auto
  next
    case False
    show ?thesis
    proof (cases i)
      case 0
      with False show ?thesis by (simp add: split_beta)
    next
      case (Suc n)
      with Cons.prems have "n < length ms" by simp
      from Cons.IH [OF this] False Suc show ?thesis
        by (auto simp: split_beta less_Suc_eq_0_disj)
    qed
  qed
qed

lemma post_feedback_frame:
  "length (snd (post_feedback store messageId uid rating feedback now t db_throws)) = length store
   \<and> (\<forall>i < length store.
        same_but_feedback (store ! i)
          (snd (post_feedback store messageId uid rating feedback now t db_throws) ! i)
        \<and> (snd (post_feedback store messageId uid rating feedback now t db_throws) ! i \<noteq> store ! i
             \<longrightarrow> m_id (store ! i) = messageId \<and> m_userId (store ! i) = uid
               \<and> (\<forall>j < i.
                    snd (post_feedback store messageId uid rating feedback now t db_throws) ! j
                      = store ! j)))"
proof (cases db_throws)
  case True
  then show ?thesis by (simp add: post_feedback_def)
next
  case False
  let ?flt = "\<lambda>m. m_id m = messageId \<and> m_userId m = uid"
  let ?upd = "mongoose_update (feedback_update rating feedback now) t"
  have s: "snd (post_feedback store messageId uid rating feedback now t db_throws)
           = snd (findOneAndUpdate ?flt ?upd store)"
    using False by (simp add: post_feedback_def split: prod.splits option.splits)
  define st where "st = snd (findOneAndUpdate ?flt ?upd store)"
  have len: "length st = length store"
    by (simp add: st_def findOneAndUpdate_length)
  have nth: "same_but_feedback (store ! i) (st ! i)
       \<and> (st ! i \<noteq> store ! i \<longrightarrow>
            (m_id (store ! i) = messageId \<and> m_userId (store ! i) = uid)
            \<and> (\<forall>j < i. \<not> (m_id (store ! j) = messageId \<and> m_userId (store ! j) = uid)))"
    if "i < length store" for i
    using findOneAndUpdate_nth [of ?upd i store ?flt, OF same_but_feedback_update that]
    unfolding st_def by simp
  have before: "st ! j = store ! j"
    if i: "i < length store" and ch: "st ! i \<noteq> store ! i" and j: "j < i" for i j
  proof (rule ccontr)
    assume c: "st ! j \<noteq> store ! j"
    have jl: "j < length store" using i j by simp
    from nth [OF jl] c have "m_id (store ! j) = messageId \<and> m_userId (store ! j) = uid"
      by simp
    moreover from nth [OF i] ch j
    have "\<not> (m_id (store ! j) = messageId \<and> m_userId (store ! j) = uid)"
      by simp
    ultimately show False by simp
  qed
  have "length st = length store
   \<and> (\<forall>i < length store.
        same_but_feedback (store ! i) (st ! i)
        \<and> (st ! i \<noteq> store ! i
             \<longrightarrow> m_id (store ! i) = messageId \<and> m_userId (store ! i) = uid
               \<and> (\<forall>j < i. st ! j = store ! j)))"
  proof (intro conjI allI impI)
    show "length st = length store" by (rule len)
  next
    fix i assume "i < length store"
    then show "same_but_feedback (store ! i) (st ! i)" using nth by simp
  next
    fix i assume "i < length store" "st ! i \<noteq> store ! i"
    then show "m_id (store ! i) = messageId" using nth by simp
  next
    fix i assume "i < length store" "st ! i \<noteq> store ! i"
    then show "m_userId (store ! i) = uid" using nth by simp
  next
    fix i j assume "i < length store" "st ! i \<noteq> store ! i" "j < i"
    then show "st ! j = store ! j" by (rule before)
  qed
  then show ?thesis
    unfolding s st_def .
qed

lemma post_message_prefix:
  "prefix store (snd (post_message store uid msg_text conv now i1 i2 t1 t2 emb s1 ai s2))"
  by (simp add: post_message_def Let_def split: outcome.splits)

text \<open>
  C7, as stated, fails: the feedback endpoint sets a field that is none of the three,
  \<open>updatedAt\<close>, on the message it updates (and the three paths, which the schema
  does not declare, stay unset).
\<close>

theorem message_frame_counterexample:
  "updatedAt (snd (post_feedback [msg2, msg1] ''m1'' ''u1'' (JNum (Fin 5)) (JStr ''helpful'')
                     9000 9001 False) ! 1) = 9001
   \<and> updatedAt msg1 = 100
   \<and> m_id msg1 = ''m1'' \<and> m_userId msg1 = ''u1''
   \<and> metadata (snd (post_feedback [msg2, msg1] ''m1'' ''u1'' (JNum (Fin 5)) (JStr ''helpful'')
                     9000 9001 False) ! 1) ''userRating'' = None"
  by (simp add: post_feedback_def msg1_def msg2_def new_message_def mongoose_update_feedback)

text \<open>
  C7, amended. The feedback endpoint changes at most one message (a changed message has
  the given id, is owned by the requesting user, and no message before it is changed, so
  no two are), and on it at most \<open>updatedAt\<close> and the
  three fields \<open>metadata.userRating\<close>, \<open>metadata.userFeedback\<close> and
  \<open>metadata.feedbackDate\<close>: content, type, conversation id, embedding, owner,
  \<open>createdAt\<close> and the rest of the metadata stay. The other operations on the collection
  do not update a message: sending a message only appends new documents, and deleting an
  account only removes documents.
\<close>

theorem message_frame:
  "length (snd (post_feedback store messageId uid rating feedback now t db_throws)) = length store
   \<and> (\<forall>i < length store.
        same_but_feedback (store ! i)
          (snd (post_feedback store messageId uid rating feedback now t db_throws) ! i)
        \<and> (snd (post_feedback store messageId uid rating feedback now t db_throws) ! i \<noteq> store ! i
             \<longrightarrow> m_id (store ! i) = messageId \<and> m_userId (store ! i) = uid
               \<and> (\<forall>j < i.
                    snd (post_feedback store messageId uid rating feedback now t db_throws) ! j
                      = store ! j)))
   \<and> prefix store
        (snd (post_message store uid msg_text conv now id_user id_ai t_user t_ai emb save_user ai
               save_ai))
   \<and> subseq (delete_profile_messages store uid) store"
proof -
  note f = post_feedback_frame [of store messageId uid rating feedback now t db_throws]
  have d: "subseq (delete_profile_messages store uid) store"
    by (simp add: delete_profile_messages_def deleteMany_def)
  show ?thesis
    apply (rule conjI)
     apply (rule f [THEN conjunct1])
    apply (rule conjI)
     apply (rule f [THEN conjunct2])
    apply (rule conjI)
     apply (rule post_message_prefix)
    apply (rule d)
    done
qed

theorem message_frame_witness:
  "content (snd (post_feedback [msg2, msg1] ''m1'' ''u1'' (JNum (Fin 5)) (JStr ''helpful'')
                   9000 9001 False) ! 1) = ''Keep going!''
   \<and> metadata (snd (post_feedback [msg2, msg1] ''m1'' ''u1'' (JNum (Fin 5)) (JStr ''helpful'')
                   9000 9001 False) ! 1) ''intent'' = Some (JStr ''motivation'')
   \<and> createdAt (snd (post_feedback [msg2, msg1] ''m1'' ''u1'' (JNum (Fin 5)) (JStr ''helpful'')
                   9000 9001 False) ! 1) = 100
   \<and> snd (post_feedback [msg2, msg1] ''m1'' ''u1'' (JNum (Fin 5)) (JStr ''helpful'')
            9000 9001 False) ! 0 = msg2
   \<and> snd (post_feedback [msg2, msg1] ''m1'' ''u2'' (JNum (Fin 5)) (JStr ''helpful'')
            9000 9001 False) = [msg2, msg1]"
proof -
  let ?s = "snd (post_feedback [msg2, msg1] ''m1'' ''u1'' (JNum (Fin 5)) (JStr ''helpful'')
                  9000 9001 False)"
  have s0: "?s ! 0 = msg2"
    by (simp add: post_feedback_def msg1_def msg2_def new_message_def)
  have o: "snd (post_feedback [msg2, msg1] ''m1'' ''u2'' (JNum (Fin 5)) (JStr ''helpful'')
                 9000 9001 False) = [msg2, msg1]"
    by (simp add: post_feedback_def msg1_def msg2_def new_message_def)
  have l: "(1::nat) < length [msg2, msg1]" by simp
  from message_frame [of "[msg2, msg1]" "''m1''" "''u1''" "JNum (Fin 5)" "JStr ''helpful''"
      9000 9001 False, THEN conjunct2, THEN conjunct1, THEN spec, of 1, THEN mp, OF l,
      THEN conjunct1]
  have "same_but_feedback msg1 (?s ! 1)"
    by simp
  then have "content (?s ! 1) = content msg1"
    and "metadata (?s ! 1) ''intent'' = metadata msg1 ''intent''"
    and "createdAt (?s ! 1) = createdAt msg1"
    by (simp_all add: same_but_feedback_def feedback_fields_def)
  with s0 o show ?thesis
    by (simp add: msg1_def new_message_def metadata_schema_def restrict_map_def)
qed

end
